theory Spec2Isabelle
  imports
    Main
    "HOL-Library.Sublist"
    "HOL-Library.Char_ord"
    "HOL-Library.List_Lexorder"
    "HOL-Library.Product_Lexorder"
    "HOL-Library.Multiset"
begin

section \<open>Apple TV Search Tool: the ranking and normalisation core\<close>

text \<open>
  A shallow embedding of \<^verbatim>\<open>AppleTV_Search_tool.py\<close>: the scoring function
  \<^verbatim>\<open>_score_result\<close>, the body of \<^verbatim>\<open>search\<close> after the HTTP call, and the region
  resolver with the fallback of \<^verbatim>\<open>__init__\<close>.

  Scope of the model.
  \<^item> A Python \<^verbatim>\<open>str\<close> is a HOL \<open>string\<close>; each \<open>char\<close> stands for one code point
    below 256. On these code points \<^verbatim>\<open>str.lower\<close> maps one code point to one code
    point, and the order of \<open>char\<close> is the order of the code points, which is how Python
    compares strings.
  \<^item> A decoded JSON value is a \<open>json\<close>; numbers with a fraction or an exponent (Python
    \<^verbatim>\<open>float\<close>) are left out.
  \<^item> An exception that leaves a function is the \<open>Inl\<close> of its result.
\<close>

subsection \<open>Strings\<close>

text \<open>
  \<^verbatim>\<open>str.lower\<close> on code points below 256: the letters A to Z and the letters
  U+00C0 to U+00DE (without the multiplication sign U+00D7) move up by 32; every other
  code point stays.
\<close>

definition lower_char :: "char \<Rightarrow> char" where
  "lower_char c =
     (let n = (of_char c :: nat)
      in if (65 \<le> n \<and> n \<le> 90) \<or> (192 \<le> n \<and> n \<le> 222 \<and> n \<noteq> 215)
         then char_of (n + 32) else c)"

definition py_lower :: "string \<Rightarrow> string" where
  "py_lower s = map lower_char s"

text \<open>
  The code points below 256 on which \<^verbatim>\<open>str.split()\<close> (no argument) splits:
  U+0009 to U+000D, U+001C to U+0020, U+0085 and U+00A0.
\<close>

definition is_space :: "char \<Rightarrow> bool" where
  "is_space c =
     (let n = (of_char c :: nat)
      in (9 \<le> n \<and> n \<le> 13) \<or> (28 \<le> n \<and> n \<le> 32) \<or> n = 133 \<or> n = 160)"

text \<open>
  \<^verbatim>\<open>s.split()\<close>: the maximal runs of non-space characters, in order; \<open>word\<close> is the
  run being read.
\<close>

fun split_from :: "string \<Rightarrow> string \<Rightarrow> string list" where
  "split_from word [] = (if word = [] then [] else [word])"
| "split_from word (c # cs) =
     (if is_space c
      then (if word = [] then split_from [] cs else word # split_from [] cs)
      else split_from (word @ [c]) cs)"

definition py_split :: "string \<Rightarrow> string list" where
  "py_split s = split_from [] s"

subsection \<open>The scoring function\<close>

text \<open>
  The \<^verbatim>\<open>if/elif\<close> chain of \<^verbatim>\<open>_score_result\<close> (exact, prefix, contains), as the branch
  it takes; \<open>None\<close> when it takes none. \<^verbatim>\<open>a.startswith(b)\<close> is \<open>prefix b a\<close> and
  \<^verbatim>\<open>b in a\<close> on strings is \<open>sublist b a\<close>.
\<close>

datatype tier = Exact | Starts | Bounded | Bare

definition match_tier :: "string \<Rightarrow> string \<Rightarrow> tier option" where
  "match_tier title_lower query_lower =
     (if title_lower = query_lower then Some Exact
      else if prefix query_lower title_lower then Some Starts
      else if sublist (CHR '' '' # query_lower) (CHR '' '' # title_lower) then Some Bounded
      else if sublist query_lower title_lower then Some Bare
      else None)"

fun tier_bonus :: "tier option \<Rightarrow> int" where
  "tier_bonus (Some Exact) = 1000"
| "tier_bonus (Some Starts) = 500"
| "tier_bonus (Some Bounded) = 300"
| "tier_bonus (Some Bare) = 200"
| "tier_bonus None = 0"

text \<open>
  \<^verbatim>\<open>for qword in query_words: if qword in title_words: score += 50\<close>
\<close>

fun word_loop :: "string list \<Rightarrow> string list \<Rightarrow> int \<Rightarrow> int" where
  "word_loop [] title_words score = score"
| "word_loop (qword # query_words) title_words score =
     word_loop query_words title_words
       (if qword \<in> set title_words then score + 50 else score)"

definition score_result :: "string \<Rightarrow> string \<Rightarrow> int \<Rightarrow> int" where
  "score_result title query position =
     (let title_lower = py_lower title;
          query_lower = py_lower query;
          score = 0;
          score = score + tier_bonus (match_tier title_lower query_lower);
          query_words = py_split query_lower;
          title_words = py_split title_lower;
          score = word_loop query_words title_words score
      in score + max 0 (100 - position))"

text \<open>The three terms of the score as the specification words them.\<close>

definition spec_tier_bonus :: "string \<Rightarrow> string \<Rightarrow> int" where
  "spec_tier_bonus title query =
     (if py_lower title = py_lower query then 1000
      else if prefix (py_lower query) (py_lower title) then 500
      else if sublist ('' '' @ py_lower query) ('' '' @ py_lower title) then 300
      else if sublist (py_lower query) (py_lower title) then 200
      else 0)"

definition spec_word_overlap :: "string \<Rightarrow> string \<Rightarrow> int" where
  "spec_word_overlap title query =
     50 * int (length (filter (\<lambda>qword. qword \<in> set (py_split (py_lower title)))
                              (py_split (py_lower query))))"

definition spec_position_bonus :: "int \<Rightarrow> int" where
  "spec_position_bonus position = max 0 (100 - position)"

text \<open>A tier applies to a title and a query when the chain takes its branch.\<close>

definition tier_applies :: "tier \<Rightarrow> string \<Rightarrow> string \<Rightarrow> bool" where
  "tier_applies k title query \<longleftrightarrow> match_tier (py_lower title) (py_lower query) = Some k"

subsection \<open>Decoded JSON\<close>

text \<open>
  What \<^verbatim>\<open>resp.json()\<close> returns: \<^verbatim>\<open>None\<close>, a \<^verbatim>\<open>bool\<close>, an \<^verbatim>\<open>int\<close>, a \<^verbatim>\<open>str\<close>, a
  \<^verbatim>\<open>list\<close> or a \<^verbatim>\<open>dict\<close> with string keys. A \<open>JObj\<close> holds the items of the dict in
  insertion order; a key is looked up at its first binding.
\<close>

datatype json =
    JNull
  | JBool bool
  | JInt int
  | JStr string
  | JArr "json list"
  | JObj "(string \<times> json) list"

datatype py_error = AttributeError | TypeError

text \<open>\<^verbatim>\<open>bool(x)\<close>, which \<^verbatim>\<open>if x\<close> and \<^verbatim>\<open>not x\<close> test.\<close>

fun py_truthy :: "json \<Rightarrow> bool" where
  "py_truthy JNull = False"
| "py_truthy (JBool b) = b"
| "py_truthy (JInt i) = (i \<noteq> 0)"
| "py_truthy (JStr s) = (s \<noteq> [])"
| "py_truthy (JArr xs) = (xs \<noteq> [])"
| "py_truthy (JObj kvs) = (kvs \<noteq> [])"

text \<open>\<^verbatim>\<open>d.get(key, default)\<close> on a dict.\<close>

definition dict_get :: "(string \<times> json) list \<Rightarrow> string \<Rightarrow> json \<Rightarrow> json" where
  "dict_get kvs key dflt = (case map_of kvs key of None \<Rightarrow> dflt | Some v \<Rightarrow> v)"

text \<open>\<^verbatim>\<open>x.get(key, default)\<close>: only a dict has the method.\<close>

fun py_get :: "json \<Rightarrow> string \<Rightarrow> json \<Rightarrow> py_error + json" where
  "py_get (JObj kvs) key dflt = Inr (dict_get kvs key dflt)"
| "py_get _ key dflt = Inl AttributeError"

text \<open>
  \<^verbatim>\<open>s in x\<close> for a string \<open>s\<close>: a substring test on a string, membership in a list, a
  key test on a dict, and a \<^verbatim>\<open>TypeError\<close> on anything else.
\<close>

fun py_contains :: "string \<Rightarrow> json \<Rightarrow> py_error + bool" where
  "py_contains s (JStr t) = Inr (sublist s t)"
| "py_contains s (JArr xs) = Inr (JStr s \<in> set xs)"
| "py_contains s (JObj kvs) = Inr (s \<in> set (map fst kvs))"
| "py_contains s _ = Inl TypeError"

text \<open>
  The elements a \<^verbatim>\<open>for\<close> loop over \<open>x\<close> visits: those of a list, the keys of a dict, the
  characters of a string; anything else is not iterable.
\<close>

fun py_iter :: "json \<Rightarrow> py_error + json list" where
  "py_iter (JArr xs) = Inr xs"
| "py_iter (JObj kvs) = Inr (map (\<lambda>kv. JStr (fst kv)) kvs)"
| "py_iter (JStr s) = Inr (map (\<lambda>c. JStr [c]) s)"
| "py_iter _ = Inl TypeError"

text \<open>
  Membership in a \<^verbatim>\<open>set\<close> hashes the value first: a list or a dict raises
  \<^verbatim>\<open>TypeError\<close>. Among the hashable values \<^verbatim>\<open>True == 1\<close> and \<^verbatim>\<open>False == 0\<close> (with equal
  hashes); \<open>py_key\<close> picks one representative of each class of equal values.
\<close>

fun py_hashable :: "json \<Rightarrow> bool" where
  "py_hashable (JArr xs) = False"
| "py_hashable (JObj kvs) = False"
| "py_hashable _ = True"

fun py_key :: "json \<Rightarrow> json" where
  "py_key (JBool b) = JInt (if b then 1 else 0)"
| "py_key x = x"

text \<open>\<^verbatim>\<open>content_id in seen_ids\<close>; the set is kept as the list of the values added.\<close>

definition seen_contains :: "json \<Rightarrow> json list \<Rightarrow> py_error + bool" where
  "seen_contains content_id seen_ids =
     (if py_hashable content_id
      then Inr (py_key content_id \<in> set (map py_key seen_ids))
      else Inl TypeError)"

subsection \<open>The body of search\<close>

text \<open>
  \<^verbatim>\<open>"PN" in shelf_id or "people" in shelf_id.lower()\<close>, with the short circuit of
  \<^verbatim>\<open>or\<close>; only a string has \<^verbatim>\<open>lower\<close>.
\<close>

definition is_people_shelf :: "json \<Rightarrow> py_error + bool" where
  "is_people_shelf shelf_id =
     (case py_contains ''PN'' shelf_id of
        Inl e \<Rightarrow> Inl e
      | Inr pn \<Rightarrow>
          if pn then Inr True
          else (case shelf_id of
                  JStr s \<Rightarrow> Inr (sublist ''people'' (py_lower s))
                | _ \<Rightarrow> Inl AttributeError))"

text \<open>
  \<^verbatim>\<open>not self.include_people and (...)\<close>: the condition under which the shelf loop
  takes its \<^verbatim>\<open>continue\<close>.
\<close>

definition skip_shelf :: "bool \<Rightarrow> json \<Rightarrow> py_error + bool" where
  "skip_shelf include_people shelf_id =
     (if \<not> include_people then is_people_shelf shelf_id else Inr False)"

text \<open>
  \<^verbatim>\<open>not url or ("/show/" not in url and "/movie/" not in url and "/person/" not in url)\<close>:
  the condition under which the item is dropped for its URL.
\<close>

definition url_invalid :: "json \<Rightarrow> py_error + bool" where
  "url_invalid url =
     (if \<not> py_truthy url then Inr True
      else (case py_contains ''/show/'' url of
              Inl e \<Rightarrow> Inl e
            | Inr is_show \<Rightarrow>
                if is_show then Inr False
                else (case py_contains ''/movie/'' url of
                        Inl e \<Rightarrow> Inl e
                      | Inr is_movie \<Rightarrow>
                          if is_movie then Inr False
                          else (case py_contains ''/person/'' url of
                                  Inl e \<Rightarrow> Inl e
                                | Inr is_person \<Rightarrow> Inr (\<not> is_person)))))"

text \<open>
  The optional filter: \<open>True\<close> when one of its two \<^verbatim>\<open>continue\<close> statements is taken.
  An absent or empty \<^verbatim>\<open>filter_type\<close> is falsy and filters nothing.
\<close>

definition filtered_out :: "string option \<Rightarrow> json \<Rightarrow> py_error + bool" where
  "filtered_out filter_type url =
     (case filter_type of
        None \<Rightarrow> Inr False
      | Some f \<Rightarrow>
          if f = [] then Inr False
          else (let ft = py_lower f in
                case py_contains ''/movie/'' url of
                  Inl e \<Rightarrow> Inl e
                | Inr is_movie \<Rightarrow>
                    (case py_contains ''/show/'' url of
                       Inl e \<Rightarrow> Inl e
                     | Inr is_show \<Rightarrow>
                         if ft = ''movie'' \<and> \<not> is_movie then Inr True
                         else if (ft = ''show'' \<or> ft = ''series'') \<and> \<not> is_show then Inr True
                         else Inr False)))"

text \<open>
  One entry of the returned list. The title is a string: \<^verbatim>\<open>_score_result\<close> has called
  \<^verbatim>\<open>title.lower()\<close> before the entry is built.
\<close>

record search_result =
  result_score :: int
  result_id :: json
  result_title :: string
  result_type :: json
  result_raw_type :: json
  result_url :: json

text \<open>
  The loop body from \<^verbatim>\<open>title = item.get("title", "Unknown")\<close> to \<^verbatim>\<open>results.append\<close>:
  \<open>None\<close> when a \<^verbatim>\<open>continue\<close> is taken, the appended entry otherwise.
\<close>

definition make_result ::
  "string \<Rightarrow> string option \<Rightarrow> nat \<Rightarrow> (string \<times> json) list \<Rightarrow> json \<Rightarrow> py_error + search_result option"
where
  "make_result query filter_type position item content_id =
     (let title = dict_get item ''title'' (JStr ''Unknown'');
          content_type = dict_get item ''type'' (JStr ''Unknown'');
          localized_type = dict_get item ''localizedType'' content_type;
          url = dict_get item ''url'' (JStr '''')
      in case url_invalid url of
           Inl e \<Rightarrow> Inl e
         | Inr invalid \<Rightarrow>
             if invalid then Inr None
             else (case filtered_out filter_type url of
                     Inl e \<Rightarrow> Inl e
                   | Inr out \<Rightarrow>
                       if out then Inr None
                       else (case title of
                               JStr t \<Rightarrow>
                                 Inr (Some \<lparr>result_score = score_result t query (int position),
                                            result_id = content_id,
                                            result_title = t,
                                            result_type = localized_type,
                                            result_raw_type = content_type,
                                            result_url = url\<rparr>)
                             | _ \<Rightarrow> Inl AttributeError)))"

text \<open>The state of the loops: \<^verbatim>\<open>results\<close> and \<^verbatim>\<open>seen_ids\<close>.\<close>

type_synonym loop_state = "search_result list \<times> json list"

text \<open>One pass of the inner loop body.\<close>

definition process_item ::
  "string \<Rightarrow> string option \<Rightarrow> nat \<Rightarrow> json \<Rightarrow> loop_state \<Rightarrow> py_error + loop_state"
where
  "process_item query filter_type position item st =
     (case item of
        JObj kvs \<Rightarrow>
          (let content_id = dict_get kvs ''id'' JNull in
           if \<not> py_truthy content_id then Inr st
           else (case seen_contains content_id (snd st) of
                   Inl e \<Rightarrow> Inl e
                 | Inr dup \<Rightarrow>
                     if dup then Inr st
                     else (let seen_ids = content_id # snd st in
                           case make_result query filter_type position kvs content_id of
                             Inl e \<Rightarrow> Inl e
                           | Inr None \<Rightarrow> Inr (fst st, seen_ids)
                           | Inr (Some r) \<Rightarrow> Inr (fst st @ [r], seen_ids))))
      | _ \<Rightarrow> Inl AttributeError)"

text \<open>\<^verbatim>\<open>for position, item in enumerate(items)\<close>, over the pairs of \<^verbatim>\<open>enumerate\<close>.\<close>

fun items_loop ::
  "string \<Rightarrow> string option \<Rightarrow> (nat \<times> json) list \<Rightarrow> loop_state \<Rightarrow> py_error + loop_state"
where
  "items_loop query filter_type [] st = Inr st"
| "items_loop query filter_type ((position, item) # rest) st =
     (case process_item query filter_type position item st of
        Inl e \<Rightarrow> Inl e
      | Inr st' \<Rightarrow> items_loop query filter_type rest st')"

text \<open>One pass of the outer loop body.\<close>

definition process_shelf ::
  "bool \<Rightarrow> string \<Rightarrow> string option \<Rightarrow> json \<Rightarrow> loop_state \<Rightarrow> py_error + loop_state"
where
  "process_shelf include_people query filter_type shelf st =
     (case shelf of
        JObj kvs \<Rightarrow>
          (let shelf_id = dict_get kvs ''id'' (JStr '''') in
           case skip_shelf include_people shelf_id of
             Inl e \<Rightarrow> Inl e
           | Inr skip \<Rightarrow>
               if skip then Inr st
               else (case py_iter (dict_get kvs ''items'' (JArr [])) of
                       Inl e \<Rightarrow> Inl e
                     | Inr items \<Rightarrow> items_loop query filter_type (enumerate 0 items) st))
      | _ \<Rightarrow> Inl AttributeError)"

fun shelves_loop ::
  "bool \<Rightarrow> string \<Rightarrow> string option \<Rightarrow> json list \<Rightarrow> loop_state \<Rightarrow> py_error + loop_state"
where
  "shelves_loop include_people query filter_type [] st = Inr st"
| "shelves_loop include_people query filter_type (shelf # rest) st =
     (case process_shelf include_people query filter_type shelf st of
        Inl e \<Rightarrow> Inl e
      | Inr st' \<Rightarrow> shelves_loop include_people query filter_type rest st')"

text \<open>
  \<^verbatim>\<open>results.sort(key=lambda x: (-x["score"], x["title"]))\<close> and the truncation. Python's
  sort is stable, and so is \<open>sort_key\<close>; tuples and strings compare lexicographically.
\<close>

definition sort_key_of :: "search_result \<Rightarrow> int \<times> string" where
  "sort_key_of x = (- result_score x, result_title x)"

definition sort_and_truncate :: "search_result list \<Rightarrow> int option \<Rightarrow> search_result list" where
  "sort_and_truncate results max_results =
     (let results = sort_key sort_key_of results
      in case max_results of
           None \<Rightarrow> results
         | Some n \<Rightarrow> if n > 0 then take (nat n) results else results)"

text \<open>
  The outcome of the \<^verbatim>\<open>try\<close> block around the HTTP call: an exception that the
  \<^verbatim>\<open>except\<close> clause catches (a transport failure, or an error status through
  \<^verbatim>\<open>raise_for_status\<close>), or the decoded body. What is written to \<^verbatim>\<open>sys.stderr\<close> is a
  list of diagnostics; the text of the caught exception is not modelled.
\<close>

datatype fetched = Request_failed | Decoded json

datatype diagnostic = Search_failed | Storefronts_failed | Region_fallback string

text \<open>\<^verbatim>\<open>data.get("data", {}).get("canvas", {}).get("shelves", [])\<close>\<close>

definition get_shelves :: "json \<Rightarrow> py_error + json" where
  "get_shelves data =
     (case py_get data ''data'' (JObj []) of
        Inl e \<Rightarrow> Inl e
      | Inr d \<Rightarrow>
          (case py_get d ''canvas'' (JObj []) of
             Inl e \<Rightarrow> Inl e
           | Inr canvas \<Rightarrow> py_get canvas ''shelves'' (JArr [])))"

text \<open>
  \<^verbatim>\<open>search\<close>, given \<^verbatim>\<open>self.include_people\<close> and the outcome of the request: the lines
  written to \<^verbatim>\<open>sys.stderr\<close>, and the returned list or the exception that propagates.
\<close>

definition search ::
  "bool \<Rightarrow> fetched \<Rightarrow> string \<Rightarrow> int option \<Rightarrow> string option
     \<Rightarrow> diagnostic list \<times> (py_error + search_result list)"
where
  "search include_people response query max_results filter_type =
     (case response of
        Request_failed \<Rightarrow> ([Search_failed], Inr [])
      | Decoded data \<Rightarrow>
          ([],
           case get_shelves data of
             Inl e \<Rightarrow> Inl e
           | Inr shelves \<Rightarrow>
               if \<not> py_truthy shelves then Inr []
               else (case py_iter shelves of
                       Inl e \<Rightarrow> Inl e
                     | Inr shelf_list \<Rightarrow>
                         (case shelves_loop include_people query filter_type shelf_list ([], []) of
                            Inl e \<Rightarrow> Inl e
                          | Inr st \<Rightarrow> Inr (sort_and_truncate (fst st) max_results)))))"

subsection \<open>The region resolver\<close>

text \<open>
  \<^verbatim>\<open>str.upper\<close> on code points below 256: a to z and U+00E0 to U+00FE (without the
  division sign U+00F7) move down by 32, and U+00DF becomes \<open>SS\<close>. The upper-case forms
  of U+00B5 and U+00FF lie beyond code point 255: strings with these two code points
  are outside this definition, which leaves them as they are.
\<close>

definition upper_char :: "char \<Rightarrow> string" where
  "upper_char c =
     (let n = (of_char c :: nat)
      in if (97 \<le> n \<and> n \<le> 122) \<or> (224 \<le> n \<and> n \<le> 254 \<and> n \<noteq> 247)
         then [char_of (n - 32)]
         else if n = 223 then ''SS'' else [c])"

definition py_upper :: "string \<Rightarrow> string" where
  "py_upper s = concat (map upper_char s)"

text \<open>The decimal digits of a natural number.\<close>

fun digits_of :: "nat \<Rightarrow> string" where
  "digits_of n =
     (if n < 10 then [char_of (48 + n)]
      else digits_of (n div 10) @ [char_of (48 + n mod 10)])"

declare digits_of.simps [simp del]

text \<open>
  \<^verbatim>\<open>str(x)\<close>. The text of a list or of a dict is the parameter \<open>repr\<close>.
\<close>

fun py_str :: "(json \<Rightarrow> string) \<Rightarrow> json \<Rightarrow> string" where
  "py_str repr JNull = ''None''"
| "py_str repr (JBool b) = (if b then ''True'' else ''False'')"
| "py_str repr (JInt i) = (if i < 0 then CHR ''-'' # digits_of (nat (- i)) else digits_of (nat i))"
| "py_str repr (JStr s) = s"
| "py_str repr x = repr x"

text \<open>
  \<^verbatim>\<open>get_storefront_for_region\<close>, given the outcome of its request. Every exception
  raised inside its \<^verbatim>\<open>try\<close> block is caught by \<^verbatim>\<open>except Exception\<close>, reported, and
  followed by \<^verbatim>\<open>return None\<close>.
\<close>

definition get_storefront_for_region ::
  "(json \<Rightarrow> string) \<Rightarrow> fetched \<Rightarrow> string \<Rightarrow> diagnostic list \<times> string option"
where
  "get_storefront_for_region repr response region =
     (case response of
        Request_failed \<Rightarrow> ([Storefronts_failed], None)
      | Decoded data \<Rightarrow>
          (case py_get data ''data'' (JObj []) of
             Inl e \<Rightarrow> ([Storefronts_failed], None)
           | Inr d \<Rightarrow>
               (case py_get d (py_upper region) JNull of
                  Inl e \<Rightarrow> ([Storefronts_failed], None)
                | Inr region_data \<Rightarrow>
                    if py_truthy region_data
                    then (case py_get region_data ''storefrontId'' JNull of
                            Inl e \<Rightarrow> ([Storefronts_failed], None)
                          | Inr storefront \<Rightarrow> ([], Some (py_str repr storefront)))
                    else ([], None))))"

text \<open>Truth of an \<^verbatim>\<open>Optional[str]\<close>.\<close>

definition opt_truthy :: "string option \<Rightarrow> bool" where
  "opt_truthy x = (case x of None \<Rightarrow> False | Some s \<Rightarrow> s \<noteq> [])"

text \<open>
  The part of \<^verbatim>\<open>__init__\<close> that settles \<^verbatim>\<open>self.storefront_id\<close>; \<open>response\<close> is the
  outcome of the resolver's request, should the resolver be called.
\<close>

definition init_storefront ::
  "(json \<Rightarrow> string) \<Rightarrow> fetched \<Rightarrow> string option \<Rightarrow> string option \<Rightarrow> diagnostic list \<times> string"
where
  "init_storefront repr response storefront_id region =
     (let (diags, storefront_id) =
            (case region of
               None \<Rightarrow> ([], storefront_id)
             | Some rg \<Rightarrow>
                 if rg \<noteq> [] \<and> \<not> opt_truthy storefront_id
                 then (let (diags, resolved) = get_storefront_for_region repr response rg
                       in if \<not> opt_truthy resolved
                          then (diags @ [Region_fallback rg], Some ''143441'')
                          else (diags, resolved))
                 else ([], storefront_id))
      in (diags,
          case storefront_id of
            None \<Rightarrow> ''143441''
          | Some s \<Rightarrow> if s = [] then ''143441'' else s))"

subsection \<open>Notions used to state the properties\<close>

text \<open>The identifier that the loop body reads from an item.\<close>

definition item_id :: "json \<Rightarrow> json" where
  "item_id item = (case item of JObj kvs \<Rightarrow> dict_get kvs ''id'' JNull | _ \<Rightarrow> JNull)"

text \<open>The key under which an occurrence \<open>(position, item)\<close> is recorded as seen.\<close>

definition occ_key :: "nat \<times> json \<Rightarrow> json" where
  "occ_key occ = py_key (item_id (snd occ))"

text \<open>The shelves that the outer loop iterates over.\<close>

definition response_shelves :: "json \<Rightarrow> json list" where
  "response_shelves data =
     (case get_shelves data of
        Inl e \<Rightarrow> []
      | Inr shelves \<Rightarrow>
          if \<not> py_truthy shelves then []
          else (case py_iter shelves of Inl e \<Rightarrow> [] | Inr shelf_list \<Rightarrow> shelf_list))"

text \<open>The pairs that the inner loop iterates over in a shelf.\<close>

definition shelf_items :: "json \<Rightarrow> (nat \<times> json) list" where
  "shelf_items shelf =
     (case shelf of
        JObj kvs \<Rightarrow>
          (case py_iter (dict_get kvs ''items'' (JArr [])) of
             Inl e \<Rightarrow> []
           | Inr items \<Rightarrow> enumerate 0 items)
      | _ \<Rightarrow> [])"

text \<open>A shelf is visited when the outer loop does not take its \<^verbatim>\<open>continue\<close>.\<close>

definition shelf_visited :: "bool \<Rightarrow> json \<Rightarrow> bool" where
  "shelf_visited include_people shelf =
     (case shelf of
        JObj kvs \<Rightarrow> skip_shelf include_people (dict_get kvs ''id'' (JStr '''')) = Inr False
      | _ \<Rightarrow> False)"

text \<open>All occurrences of items in visited shelves, in the order the loops reach them.\<close>

definition visited_items :: "bool \<Rightarrow> json \<Rightarrow> (nat \<times> json) list" where
  "visited_items include_people data =
     concat (map shelf_items (filter (shelf_visited include_people) (response_shelves data)))"

text \<open>
  The entry that an occurrence yields when its identifier is new, \<open>None\<close> when the
  occurrence is dropped for its URL or by the filter.
\<close>

definition entry_of :: "string \<Rightarrow> string option \<Rightarrow> nat \<times> json \<Rightarrow> search_result option" where
  "entry_of query filter_type occ =
     (case snd occ of
        JObj kvs \<Rightarrow>
          (case make_result query filter_type (fst occ) kvs (dict_get kvs ''id'' JNull) of
             Inr (Some r) \<Rightarrow> Some r
           | _ \<Rightarrow> None)
      | _ \<Rightarrow> None)"

text \<open>\<^verbatim>\<open>s in url\<close> holds (and does not raise).\<close>

definition url_has :: "string \<Rightarrow> json \<Rightarrow> bool" where
  "url_has s url \<longleftrightarrow> py_contains s url = Inr True"

text \<open>
  The people marker as the specification words it, with both markers detected without
  regard to case.
\<close>

definition spec_people_marker :: "string \<Rightarrow> bool" where
  "spec_people_marker shelf_id \<longleftrightarrow>
     sublist (py_lower ''PN'') (py_lower shelf_id) \<or> sublist ''people'' (py_lower shelf_id)"

text \<open>
  A response of the documented shape, every key optional: \<^verbatim>\<open>data.canvas.shelves\<close> is a
  list of objects, each with a string \<^verbatim>\<open>id\<close> and a list \<^verbatim>\<open>items\<close> of objects whose
  \<^verbatim>\<open>id\<close>, \<^verbatim>\<open>title\<close> and \<^verbatim>\<open>url\<close> are strings.
\<close>

definition opt_str :: "(string \<times> json) list \<Rightarrow> string \<Rightarrow> bool" where
  "opt_str kvs key =
     (case map_of kvs key of None \<Rightarrow> True | Some (JStr s) \<Rightarrow> True | Some _ \<Rightarrow> False)"

definition shaped_item :: "json \<Rightarrow> bool" where
  "shaped_item item =
     (case item of
        JObj kvs \<Rightarrow> opt_str kvs ''id'' \<and> opt_str kvs ''title'' \<and> opt_str kvs ''url''
      | _ \<Rightarrow> False)"

definition shaped_shelf :: "json \<Rightarrow> bool" where
  "shaped_shelf shelf =
     (case shelf of
        JObj kvs \<Rightarrow>
          opt_str kvs ''id'' \<and>
          (case map_of kvs ''items'' of
             None \<Rightarrow> True
           | Some (JArr items) \<Rightarrow> list_all shaped_item items
           | Some _ \<Rightarrow> False)
      | _ \<Rightarrow> False)"

definition shaped_response :: "json \<Rightarrow> bool" where
  "shaped_response data =
     (case data of
        JObj root \<Rightarrow>
          (case map_of root ''data'' of
             None \<Rightarrow> True
           | Some (JObj d) \<Rightarrow>
               (case map_of d ''canvas'' of
                  None \<Rightarrow> True
                | Some (JObj canvas) \<Rightarrow>
                    (case map_of canvas ''shelves'' of
                       None \<Rightarrow> True
                     | Some (JArr shelves) \<Rightarrow> list_all shaped_shelf shelves
                     | Some _ \<Rightarrow> False)
                | Some _ \<Rightarrow> False)
           | Some _ \<Rightarrow> False)
      | _ \<Rightarrow> False)"

subsection \<open>Responses used as examples\<close>

definition example_item :: "string \<Rightarrow> string \<Rightarrow> string \<Rightarrow> json" where
  "example_item ident title url =
     JObj [(''id'', JStr ident), (''title'', JStr title), (''type'', JStr ''Movie''),
           (''url'', JStr url)]"

definition example_shelf :: "string \<Rightarrow> json list \<Rightarrow> json" where
  "example_shelf ident items = JObj [(''id'', JStr ident), (''items'', JArr items)]"

definition example_response :: "json list \<Rightarrow> json" where
  "example_response shelves =
     JObj [(''data'', JObj [(''canvas'', JObj [(''shelves'', JArr shelves)])])]"

definition example_result :: "int \<Rightarrow> string \<Rightarrow> string \<Rightarrow> string \<Rightarrow> search_result" where
  "example_result score ident title url =
     \<lparr>result_score = score, result_id = JStr ident, result_title = title,
      result_type = JStr ''Movie'', result_raw_type = JStr ''Movie'', result_url = JStr url\<rparr>"

section \<open>Properties of the scoring function\<close>

lemma word_loop_count:
  "word_loop query_words title_words score =
     score + 50 * int (length (filter (\<lambda>qword. qword \<in> set title_words) query_words))"
  by (induction query_words arbitrary: score) simp_all

lemma tier_bonus_match_tier:
  "tier_bonus (match_tier (py_lower title) (py_lower query)) = spec_tier_bonus title query"
  by (simp add: match_tier_def spec_tier_bonus_def)

lemma score_result_sum:
  "score_result title query position =
     spec_tier_bonus title query + spec_word_overlap title query + spec_position_bonus position"
  by (simp add: score_result_def Let_def word_loop_count tier_bonus_match_tier
      spec_word_overlap_def spec_position_bonus_def)

lemma spec_tier_bonus_applies:
  "spec_tier_bonus title query =
     (if tier_applies Exact title query then 1000
      else if tier_applies Starts title query then 500
      else if tier_applies Bounded title query then 300
      else if tier_applies Bare title query then 200 else 0)"
  by (simp add: spec_tier_bonus_def tier_applies_def match_tier_def)

lemma spec_word_overlap_nonneg: "0 \<le> spec_word_overlap title query"
  by (simp add: spec_word_overlap_def)

lemma spec_tier_bonus_nonneg: "0 \<le> spec_tier_bonus title query"
  by (simp add: spec_tier_bonus_def)

lemma score_result_lower_bound: "max 0 (100 - position) \<le> score_result title query position"
  using spec_word_overlap_nonneg [of title query] spec_tier_bonus_nonneg [of title query]
  by (simp add: score_result_sum spec_position_bonus_def)

text \<open>
  C1. For every title, query and position the score is the sum of the tier bonus (1000,
  500, 300, 200 or 0, by the first test that holds on the lower-cased strings), 50 for
  every word of the lower-cased query, duplicates included, that is a word of the
  lower-cased title, and \<open>max 0 (100 - position)\<close>. So at one position and with equal
  word overlap, a title in the exact tier scores above one in the prefix tier, that one
  above one in the bounded-substring tier, and that one above one in the bare-substring
  tier.
\<close>

theorem C1_score_is_sum_of_three_terms:
  "score_result title query position =
     spec_tier_bonus title query + spec_word_overlap title query + spec_position_bonus position
   \<and> (spec_word_overlap t1 query = spec_word_overlap t2 query \<longrightarrow>
        (tier_applies Exact t1 query \<and> tier_applies Starts t2 query \<longrightarrow>
           score_result t2 query position < score_result t1 query position) \<and>
        (tier_applies Starts t1 query \<and> tier_applies Bounded t2 query \<longrightarrow>
           score_result t2 query position < score_result t1 query position) \<and>
        (tier_applies Bounded t1 query \<and> tier_applies Bare t2 query \<longrightarrow>
           score_result t2 query position < score_result t1 query position))"
proof -
  have tiers: "tier_applies k t query \<Longrightarrow> spec_tier_bonus t query = tier_bonus (Some k)" for k t
    by (simp add: tier_applies_def flip: tier_bonus_match_tier)
  show ?thesis
    by (auto simp: score_result_sum dest!: tiers)
qed

theorem C1_score_is_sum_of_three_terms_witness:
  "score_result ''Foundation II'' ''Foundation'' 3 < score_result ''Foundation'' ''Foundation'' 3
   \<and> score_result ''The Foundation Show'' ''Foundation'' 3
       < score_result ''Foundation II'' ''Foundation'' 3
   \<and> score_result ''xFoundationx'' ''Foundation'' 3
       < score_result ''The Foundations'' ''Foundation'' 3"
proof -
  have w1: "spec_word_overlap ''Foundation'' ''Foundation''
              = spec_word_overlap ''Foundation II'' ''Foundation''"
    by code_simp
  have w2: "spec_word_overlap ''Foundation II'' ''Foundation''
              = spec_word_overlap ''The Foundation Show'' ''Foundation''"
    by code_simp
  have w3: "spec_word_overlap ''The Foundations'' ''Foundation''
              = spec_word_overlap ''xFoundationx'' ''Foundation''"
    by code_simp
  have t1: "tier_applies Exact ''Foundation'' ''Foundation''
              \<and> tier_applies Starts ''Foundation II'' ''Foundation''"
    by code_simp
  have t2: "tier_applies Starts ''Foundation II'' ''Foundation''
              \<and> tier_applies Bounded ''The Foundation Show'' ''Foundation''"
    by code_simp
  have t3: "tier_applies Bounded ''The Foundations'' ''Foundation''
              \<and> tier_applies Bare ''xFoundationx'' ''Foundation''"
    by code_simp
  show ?thesis
    using C1_score_is_sum_of_three_terms
            [of "''Foundation''" "''Foundation''" 3 "''Foundation''" "''Foundation II''"]
          C1_score_is_sum_of_three_terms
            [of "''Foundation''" "''Foundation''" 3 "''Foundation II''" "''The Foundation Show''"]
          C1_score_is_sum_of_three_terms
            [of "''Foundation''" "''Foundation''" 3 "''The Foundations''" "''xFoundationx''"]
          w1 w2 w3 t1 t2 t3
    by blast
qed

text \<open>
  C6, as stated, at the title \<open>abc\<close> and the query \<open>xyz\<close>: none of the four tiers
  applies.
\<close>

theorem C6_no_tier_applies_counterexample:
  "\<not> tier_applies Exact ''abc'' ''xyz'' \<and> \<not> tier_applies Starts ''abc'' ''xyz''
   \<and> \<not> tier_applies Bounded ''abc'' ''xyz'' \<and> \<not> tier_applies Bare ''abc'' ''xyz''"
  by code_simp

lemma bounded_imp_sublist:
  assumes "sublist (c # q) (c # t)"
  shows "sublist q t"
proof -
  from assms have "prefix (c # q) (c # t) \<or> sublist (c # q) t"
    by (simp add: sublist_Cons_right)
  then show ?thesis
  proof
    assume "prefix (c # q) (c # t)"
    then show ?thesis by simp
  next
    assume "sublist (c # q) t"
    moreover have "sublist q (c # q)"
      by (rule suffix_imp_sublist) (simp add: suffix_Cons)
    ultimately show ?thesis
      by (rule sublist_order.order.trans [rotated])
  qed
qed

text \<open>
  C6, amended. At most one tier applies: the first, in the order exact, prefix,
  bounded substring, bare substring, whose test holds on the lower-cased strings. No
  tier applies exactly when the lower-cased query is not a substring of the lower-cased
  title.
\<close>

theorem C6_at_most_one_tier_in_priority_order:
  "(tier_applies Exact title query \<longleftrightarrow> py_lower title = py_lower query)
   \<and> (tier_applies Starts title query \<longleftrightarrow>
        py_lower title \<noteq> py_lower query \<and> prefix (py_lower query) (py_lower title))
   \<and> (tier_applies Bounded title query \<longleftrightarrow>
        py_lower title \<noteq> py_lower query \<and> \<not> prefix (py_lower query) (py_lower title)
        \<and> sublist (CHR '' '' # py_lower query) (CHR '' '' # py_lower title))
   \<and> (tier_applies Bare title query \<longleftrightarrow>
        py_lower title \<noteq> py_lower query \<and> \<not> prefix (py_lower query) (py_lower title)
        \<and> \<not> sublist (CHR '' '' # py_lower query) (CHR '' '' # py_lower title)
        \<and> sublist (py_lower query) (py_lower title))
   \<and> ((\<forall>k. \<not> tier_applies k title query) \<longleftrightarrow> \<not> sublist (py_lower query) (py_lower title))
   \<and> (tier_applies k title query \<and> tier_applies k' title query \<longrightarrow> k = k')"
proof -
  have none: "(\<forall>k. \<not> tier_applies k title query) \<longleftrightarrow> \<not> sublist (py_lower query) (py_lower title)"
    using bounded_imp_sublist [of "CHR '' ''" "py_lower query" "py_lower title"]
    by (auto simp: tier_applies_def match_tier_def)
  show ?thesis
    unfolding none by (auto simp: tier_applies_def match_tier_def)
qed

theorem C6_at_most_one_tier_in_priority_order_witness:
  "tier_applies Starts ''Foundation II'' ''Foundation''
   \<and> \<not> tier_applies Exact ''Foundation II'' ''Foundation''
   \<and> \<not> tier_applies Bounded ''Foundation II'' ''Foundation''
   \<and> \<not> tier_applies Bare ''Foundation II'' ''Foundation''"
proof -
  have s: "tier_applies Starts ''Foundation II'' ''Foundation''"
    by code_simp
  show ?thesis
    using s C6_at_most_one_tier_in_priority_order
              [of "''Foundation II''" "''Foundation''" Starts Exact]
            C6_at_most_one_tier_in_priority_order
              [of "''Foundation II''" "''Foundation''" Starts Bounded]
            C6_at_most_one_tier_in_priority_order
              [of "''Foundation II''" "''Foundation''" Starts Bare]
    by blast
qed

section \<open>Sorting and truncation\<close>

lemma sort_key_of_le:
  "sort_key_of a \<le> sort_key_of b \<longleftrightarrow>
     result_score b < result_score a
     \<or> (result_score a = result_score b \<and> result_title a \<le> result_title b)"
  by (auto simp: sort_key_of_def less_eq_prod_def)

lemma sorted_wrt_sort_key_of:
  "sorted_wrt (\<lambda>a b. result_score b < result_score a
                   \<or> (result_score a = result_score b \<and> result_title a \<le> result_title b))
     (sort_key sort_key_of results)"
proof -
  have "sorted (map sort_key_of (sort_key sort_key_of results))"
    by (rule sorted_sort_key)
  then show ?thesis
    by (simp add: sorted_wrt_map sort_key_of_le)
qed

lemma set_sort_and_truncate: "set (sort_and_truncate results max_results) \<subseteq> set results"
  by (auto simp: sort_and_truncate_def Let_def split: option.splits dest: in_set_takeD)

lemma distinct_map_sort_key:
  assumes "distinct (map f xs)"
  shows "distinct (map f (sort_key g xs))"
proof -
  have "mset (map f (sort_key g xs)) = mset (map f xs)"
    by simp
  then show ?thesis
    using assms by (metis mset_eq_imp_distinct_iff)
qed

lemma distinct_map_sort_and_truncate:
  "distinct (map f results) \<Longrightarrow> distinct (map f (sort_and_truncate results max_results))"
  by (auto simp: sort_and_truncate_def Let_def distinct_map_sort_key take_map [symmetric]
      simp del: take_map split: option.splits intro: distinct_take)

lemma get_shelves_example: "get_shelves (example_response shelves) = Inr (JArr shelves)"
  by (simp add: get_shelves_def example_response_def dict_get_def)

text \<open>
  C3. The accumulated list is sorted by score descending, ties by title ascending in the
  order of the code points; the sorted list is a permutation of the accumulated one. A
  positive \<open>max_results\<close> keeps the first \<open>max_results\<close> entries of the sorted list; an
  absent or non-positive one keeps the whole sorted list. This is what \<open>search\<close> returns
  for the list its loops accumulate.
\<close>

theorem C3_sorted_then_truncated:
  "sort_and_truncate results None = sort_key sort_key_of results
   \<and> sorted_wrt (\<lambda>a b. result_score b < result_score a
                   \<or> (result_score a = result_score b \<and> result_title a \<le> result_title b))
       (sort_and_truncate results None)
   \<and> mset (sort_and_truncate results None) = mset results
   \<and> (0 < n \<longrightarrow>
        sort_and_truncate results (Some n) = take (nat n) (sort_and_truncate results None))
   \<and> (n \<le> 0 \<longrightarrow> sort_and_truncate results (Some n) = sort_and_truncate results None)
   \<and> (get_shelves data = Inr shelves \<and> py_truthy shelves \<and> py_iter shelves = Inr shelf_list
        \<and> shelves_loop include_people query filter_type shelf_list ([], [])
            = Inr (results, seen_ids)
      \<longrightarrow> search include_people (Decoded data) query max_results filter_type
            = ([], Inr (sort_and_truncate results max_results)))"
  using sorted_wrt_sort_key_of [of results]
  by (simp add: sort_and_truncate_def search_def)

theorem C3_sorted_then_truncated_witness:
  "search False
     (Decoded (example_response
        [example_shelf ''uts.col.movies''
           [example_item ''a'' ''Teddy'' ''/movie/a'', example_item ''b'' ''Ted'' ''/show/b'']]))
     ''ted'' (Some 1) None
   = ([], Inr [example_result 1149 ''b'' ''Ted'' ''/show/b''])
   \<and> sort_and_truncate
       [example_result 600 ''a'' ''Teddy'' ''/movie/a'',
        example_result 1149 ''b'' ''Ted'' ''/show/b''] (Some 0)
     = [example_result 1149 ''b'' ''Ted'' ''/show/b'',
        example_result 600 ''a'' ''Teddy'' ''/movie/a'']"
proof -
  let ?shelves = "[example_shelf ''uts.col.movies''
           [example_item ''a'' ''Teddy'' ''/movie/a'', example_item ''b'' ''Ted'' ''/show/b'']]"
  let ?results = "[example_result 600 ''a'' ''Teddy'' ''/movie/a'',
        example_result 1149 ''b'' ''Ted'' ''/show/b'']"
  have loop: "shelves_loop False ''ted'' None ?shelves ([], [])
                = Inr (?results, [JStr ''b'', JStr ''a''])"
    by code_simp
  have sorted: "sort_and_truncate ?results None
                  = [example_result 1149 ''b'' ''Ted'' ''/show/b'',
                     example_result 600 ''a'' ''Teddy'' ''/movie/a'']"
    by code_simp
  have first: "take (nat 1) [example_result 1149 ''b'' ''Ted'' ''/show/b'',
                     example_result 600 ''a'' ''Teddy'' ''/movie/a'']
               = [example_result 1149 ''b'' ''Ted'' ''/show/b'']"
    by simp
  have shelves: "get_shelves (example_response ?shelves) = Inr (JArr ?shelves)"
    by (rule get_shelves_example)
  have truthy: "py_truthy (JArr ?shelves)" and iter: "py_iter (JArr ?shelves) = Inr ?shelves"
    by simp_all
  have pos: "(0::int) < 1" and nonpos: "(0::int) \<le> 0"
    by simp_all
  note inst = C3_sorted_then_truncated
         [of ?results 1 "example_response ?shelves" "JArr ?shelves" ?shelves False "''ted''" None
             "[JStr ''b'', JStr ''a'']" "Some 1"]
  from inst pos
  have cut: "sort_and_truncate ?results (Some 1) = take (nat 1) (sort_and_truncate ?results None)"
    by blast
  from inst shelves truthy iter loop
  have run: "search False (Decoded (example_response ?shelves)) ''ted'' (Some 1) None
           = ([], Inr (sort_and_truncate ?results (Some 1)))"
    by blast
  from C3_sorted_then_truncated [of ?results 0] nonpos
  have all: "sort_and_truncate ?results (Some 0) = sort_and_truncate ?results None"
    by blast
  show ?thesis
    unfolding run cut all sorted first by (rule conjI; rule refl)
qed

section \<open>The content-type filter\<close>

lemma py_lower_Nil: "py_lower [] = []"
  by (simp add: py_lower_def)

lemma py_lower_eq_Nil: "py_lower f = [] \<longleftrightarrow> f = []"
  by (simp add: py_lower_def)

lemma url_invalid_False_contains:
  assumes "url_invalid url = Inr False"
  shows "\<exists>b. py_contains s url = Inr b"
  using assms by (cases url) (auto simp: url_invalid_def split: if_splits)

lemma filtered_out_valid:
  assumes "url_invalid url = Inr False"
  shows "filtered_out filter_type url =
           Inr (case filter_type of
                  None \<Rightarrow> False
                | Some f \<Rightarrow>
                    f \<noteq> [] \<and>
                    (if py_lower f = ''movie'' then \<not> url_has ''/movie/'' url
                     else if py_lower f = ''show'' \<or> py_lower f = ''series''
                          then \<not> url_has ''/show/'' url
                          else False))"
proof -
  obtain m where m: "py_contains ''/movie/'' url = Inr m"
    using url_invalid_False_contains [OF assms] by blast
  obtain s where s: "py_contains ''/show/'' url = Inr s"
    using url_invalid_False_contains [OF assms] by blast
  show ?thesis
    by (auto simp: filtered_out_def url_has_def m s Let_def py_lower_Nil split: option.splits)
qed

lemma make_result_filtered:
  assumes "url_invalid (dict_get item ''url'' (JStr '''')) = Inr False"
    and "filtered_out filter_type (dict_get item ''url'' (JStr '''')) = Inr True"
  shows "make_result query filter_type position item content_id = Inr None"
  using assms by (simp add: make_result_def Let_def)

lemma make_result_kept:
  assumes "url_invalid (dict_get item ''url'' (JStr '''')) = Inr False"
    and "filtered_out filter_type (dict_get item ''url'' (JStr '''')) = Inr False"
    and "dict_get item ''title'' (JStr ''Unknown'') = JStr t"
  shows "\<exists>r. make_result query filter_type position item content_id = Inr (Some r)
             \<and> result_url r = dict_get item ''url'' (JStr '''') \<and> result_id r = content_id
             \<and> result_title r = t \<and> result_score r = score_result t query (int position)"
  using assms by (simp add: make_result_def Let_def)

text \<open>
  C4, amended. For an item that passed URL validation: no filter, or an empty one,
  keeps it; a filter that is \<open>movie\<close> after lower-casing keeps it only if its URL
  contains \<open>/movie/\<close>; a filter that is \<open>show\<close> or \<open>series\<close> after lower-casing keeps it
  only if its URL contains \<open>/show/\<close>; any other filter value keeps it. An item that the
  filter drops yields no entry; an item that it keeps, with a string title, yields an
  entry with its URL.
\<close>

theorem C4_filter_by_url_kind:
  "url_invalid url = Inr False \<longrightarrow>
     filtered_out None url = Inr False
     \<and> filtered_out (Some []) url = Inr False
     \<and> (py_lower f = ''movie'' \<longrightarrow> filtered_out (Some f) url = Inr (\<not> url_has ''/movie/'' url))
     \<and> (py_lower f = ''show'' \<or> py_lower f = ''series'' \<longrightarrow>
          filtered_out (Some f) url = Inr (\<not> url_has ''/show/'' url))
     \<and> (py_lower f \<noteq> ''movie'' \<and> py_lower f \<noteq> ''show'' \<and> py_lower f \<noteq> ''series'' \<longrightarrow>
          filtered_out (Some f) url = Inr False)
     \<and> (dict_get item ''url'' (JStr '''') = url \<longrightarrow>
          (filtered_out filter_type url = Inr True \<longrightarrow>
             make_result query filter_type position item content_id = Inr None)
          \<and> (filtered_out filter_type url = Inr False
               \<and> dict_get item ''title'' (JStr ''Unknown'') = JStr t \<longrightarrow>
             (\<exists>r. make_result query filter_type position item content_id = Inr (Some r)
                  \<and> result_url r = url)))"
proof (intro impI)
  assume v: "url_invalid url = Inr False"
  have p1: "filtered_out None url = Inr False"
    and p2: "filtered_out (Some []) url = Inr False"
    by (simp_all add: filtered_out_def)
  have p3: "py_lower f = ''movie'' \<longrightarrow>
              filtered_out (Some f) url = Inr (\<not> url_has ''/movie/'' url)"
    by (auto simp: filtered_out_valid [OF v] py_lower_Nil)
  have p4: "py_lower f = ''show'' \<or> py_lower f = ''series'' \<longrightarrow>
              filtered_out (Some f) url = Inr (\<not> url_has ''/show/'' url)"
    by (auto simp: filtered_out_valid [OF v] py_lower_Nil)
  have p5: "py_lower f \<noteq> ''movie'' \<and> py_lower f \<noteq> ''show'' \<and> py_lower f \<noteq> ''series'' \<longrightarrow>
              filtered_out (Some f) url = Inr False"
    by (simp add: filtered_out_valid [OF v])
  have p6: "dict_get item ''url'' (JStr '''') = url \<longrightarrow>
          (filtered_out filter_type url = Inr True \<longrightarrow>
             make_result query filter_type position item content_id = Inr None)
          \<and> (filtered_out filter_type url = Inr False
               \<and> dict_get item ''title'' (JStr ''Unknown'') = JStr t \<longrightarrow>
             (\<exists>r. make_result query filter_type position item content_id = Inr (Some r)
                  \<and> result_url r = url))"
    using make_result_filtered [of item filter_type query position content_id]
      make_result_kept [of item filter_type t query position content_id] v
    by blast
  show "filtered_out None url = Inr False
     \<and> filtered_out (Some []) url = Inr False
     \<and> (py_lower f = ''movie'' \<longrightarrow> filtered_out (Some f) url = Inr (\<not> url_has ''/movie/'' url))
     \<and> (py_lower f = ''show'' \<or> py_lower f = ''series'' \<longrightarrow>
          filtered_out (Some f) url = Inr (\<not> url_has ''/show/'' url))
     \<and> (py_lower f \<noteq> ''movie'' \<and> py_lower f \<noteq> ''show'' \<and> py_lower f \<noteq> ''series'' \<longrightarrow>
          filtered_out (Some f) url = Inr False)
     \<and> (dict_get item ''url'' (JStr '''') = url \<longrightarrow>
          (filtered_out filter_type url = Inr True \<longrightarrow>
             make_result query filter_type position item content_id = Inr None)
          \<and> (filtered_out filter_type url = Inr False
               \<and> dict_get item ''title'' (JStr ''Unknown'') = JStr t \<longrightarrow>
             (\<exists>r. make_result query filter_type position item content_id = Inr (Some r)
                  \<and> result_url r = url)))"
    by (intro conjI p1 p2 p3 p4 p5 p6)
qed

text \<open>
  C4, as stated, at the filter value \<open>documentary\<close>: an item with a movie URL passes
  URL validation and is returned, not skipped.
\<close>

theorem C4_other_filter_value_keeps_counterexample:
  "url_invalid (JStr ''https://tv.apple.com/us/movie/ted/umc.cmc.1'') = Inr False
   \<and> search False
       (Decoded (example_response
          [example_shelf ''uts.col.movies''
             [example_item ''umc.cmc.1'' ''Ted'' ''https://tv.apple.com/us/movie/ted/umc.cmc.1'']]))
       ''ted'' None (Some ''documentary'')
     = ([], Inr [example_result 1150 ''umc.cmc.1'' ''Ted''
                   ''https://tv.apple.com/us/movie/ted/umc.cmc.1''])"
  by code_simp

theorem C4_filter_by_url_kind_witness:
  "filtered_out (Some ''Movie'') (JStr ''/show/b'') = Inr True
   \<and> make_result ''ted'' (Some ''Movie'') 0
        [(''title'', JStr ''Ted''), (''url'', JStr ''/show/b'')] (JStr ''b'') = Inr None
   \<and> filtered_out (Some ''series'') (JStr ''/show/b'') = Inr False
   \<and> make_result ''ted'' (Some ''series'') 0
        [(''title'', JStr ''Ted''), (''url'', JStr ''/show/b'')] (JStr ''b'') \<noteq> Inr None
   \<and> filtered_out (Some ''documentary'') (JStr ''/show/b'') = Inr False"
proof -
  let ?url = "JStr ''/show/b''"
  let ?item = "[(''title'', JStr ''Ted''), (''url'', ?url)]"
  have valid: "url_invalid ?url = Inr False"
    by code_simp
  have movie: "py_lower ''Movie'' = ''movie''"
    and series: "py_lower ''series'' = ''series''"
    and other: "py_lower ''documentary'' \<noteq> ''movie'' \<and> py_lower ''documentary'' \<noteq> ''show''
                  \<and> py_lower ''documentary'' \<noteq> ''series''"
    by code_simp+
  have has: "\<not> url_has ''/movie/'' ?url" "url_has ''/show/'' ?url"
    by code_simp+
  have item: "dict_get ?item ''url'' (JStr '''') = ?url"
    "dict_get ?item ''title'' (JStr ''Unknown'') = JStr ''Ted''"
    by (simp_all add: dict_get_def)
  note i1 = C4_filter_by_url_kind
              [of ?url "''Movie''" ?item "Some ''Movie''" "''ted''" 0 "JStr ''b''" "''Ted''"]
  note i2 = C4_filter_by_url_kind
              [of ?url "''series''" ?item "Some ''series''" "''ted''" 0 "JStr ''b''" "''Ted''"]
  note i3 = C4_filter_by_url_kind [of ?url "''documentary''"]
  from i1 valid movie has have f1: "filtered_out (Some ''Movie'') ?url = Inr True"
    by simp
  from i1 valid item f1
  have m1: "make_result ''ted'' (Some ''Movie'') 0 ?item (JStr ''b'') = Inr None"
    by blast
  from i2 valid series has have f2: "filtered_out (Some ''series'') ?url = Inr False"
    by simp
  from i2 valid item f2
  have m2: "make_result ''ted'' (Some ''series'') 0 ?item (JStr ''b'') \<noteq> Inr None"
    by fastforce
  from i3 valid other have f3: "filtered_out (Some ''documentary'') ?url = Inr False"
    by blast
  from f1 m1 f2 m2 f3 show ?thesis
    by blast
qed

section \<open>People shelves\<close>

lemma process_shelf_skip:
  "process_shelf include_people query filter_type (JObj kvs) st =
     (case skip_shelf include_people (dict_get kvs ''id'' (JStr '''')) of
        Inl e \<Rightarrow> Inl e
      | Inr skip \<Rightarrow>
          if skip then Inr st
          else (case py_iter (dict_get kvs ''items'' (JArr [])) of
                  Inl e \<Rightarrow> Inl e
                | Inr items \<Rightarrow> items_loop query filter_type (enumerate 0 items) st))"
  by (simp add: process_shelf_def Let_def)

text \<open>
  C5, as stated, at the shelf identifier \<open>uts.col.pn\<close>: it contains the marker \<open>PN\<close>
  when case is ignored, yet with include-people unset the shelf is not skipped and its
  item is returned.
\<close>

theorem C5_lower_case_pn_not_skipped_counterexample:
  "spec_people_marker ''uts.col.pn''
   \<and> skip_shelf False (JStr ''uts.col.pn'') = Inr False
   \<and> search False
       (Decoded (example_response
          [example_shelf ''uts.col.pn''
             [example_item ''umc.cpc.1'' ''Ted'' ''https://tv.apple.com/us/person/ted/umc.cpc.1'']]))
       ''ted'' None None
     = ([], Inr [example_result 1150 ''umc.cpc.1'' ''Ted''
                   ''https://tv.apple.com/us/person/ted/umc.cpc.1''])"
  by code_simp

text \<open>
  C5, amended. With include-people unset, a shelf with a string identifier is skipped,
  its items untouched, if and only if the identifier contains \<open>PN\<close> in exactly this case
  or contains \<open>people\<close> in any case. With include-people set no shelf is skipped. A
  skipped shelf leaves the results and the seen identifiers as they are; a shelf that
  is not skipped has its items processed in order.
\<close>

theorem C5_people_shelf_skipped:
  "skip_shelf False (JStr shelf_id)
     = Inr (sublist ''PN'' shelf_id \<or> sublist ''people'' (py_lower shelf_id))
   \<and> skip_shelf True any_id = Inr False
   \<and> (skip_shelf include_people (dict_get kvs ''id'' (JStr '''')) = Inr True \<longrightarrow>
        process_shelf include_people query filter_type (JObj kvs) st = Inr st)
   \<and> (skip_shelf include_people (dict_get kvs ''id'' (JStr '''')) = Inr False \<longrightarrow>
        process_shelf include_people query filter_type (JObj kvs) st
          = (case py_iter (dict_get kvs ''items'' (JArr [])) of
               Inl e \<Rightarrow> Inl e
             | Inr items \<Rightarrow> items_loop query filter_type (enumerate 0 items) st))"
  by (simp add: process_shelf_skip skip_shelf_def is_people_shelf_def)

theorem C5_people_shelf_skipped_witness:
  "process_shelf False ''ted'' None
     (example_shelf ''uts.col.Featured.PN'' [example_item ''p'' ''Ted'' ''/person/p''])
     ([], []) = Inr ([], [])
   \<and> process_shelf False ''ted'' None
       (example_shelf ''uts.col.movies'' [example_item ''p'' ''Ted'' ''/person/p''])
       ([], []) = Inr ([example_result 1150 ''p'' ''Ted'' ''/person/p''], [JStr ''p''])"
proof -
  let ?items = "[example_item ''p'' ''Ted'' ''/person/p'']"
  let ?people = "[(''id'', JStr ''uts.col.Featured.PN''), (''items'', JArr ?items)]"
  let ?movies = "[(''id'', JStr ''uts.col.movies''), (''items'', JArr ?items)]"
  have ids: "dict_get ?people ''id'' (JStr '''') = JStr ''uts.col.Featured.PN''"
    "dict_get ?movies ''id'' (JStr '''') = JStr ''uts.col.movies''"
    "dict_get ?movies ''items'' (JArr []) = JArr ?items"
    by (simp_all add: dict_get_def)
  have skip: "skip_shelf False (JStr ''uts.col.Featured.PN'') = Inr True"
    and keep: "skip_shelf False (JStr ''uts.col.movies'') = Inr False"
    by code_simp+
  have loop: "items_loop ''ted'' None (enumerate 0 ?items) ([], [])
                = Inr ([example_result 1150 ''p'' ''Ted'' ''/person/p''], [JStr ''p''])"
    by code_simp
  from C5_people_shelf_skipped [of _ _ False ?people "''ted''" None "([], [])"] ids skip
  have a: "process_shelf False ''ted'' None (JObj ?people) ([], []) = Inr ([], [])"
    by simp
  from C5_people_shelf_skipped [of _ _ False ?movies "''ted''" None "([], [])"] ids keep loop
  have b: "process_shelf False ''ted'' None (JObj ?movies) ([], [])
             = Inr ([example_result 1150 ''p'' ''Ted'' ''/person/p''], [JStr ''p''])"
    by simp
  from a b show ?thesis
    by (simp add: example_shelf_def)
qed

section \<open>The loops over shelves and items\<close>

lemma items_loop_append:
  "items_loop query filter_type (xs @ ys) st =
     (case items_loop query filter_type xs st of
        Inl e \<Rightarrow> Inl e
      | Inr st' \<Rightarrow> items_loop query filter_type ys st')"
  by (induction xs arbitrary: st) (auto split: sum.splits)

lemma shelves_loop_items_loop:
  assumes "shelves_loop include_people query filter_type shelves st = Inr st'"
  shows "items_loop query filter_type
           (concat (map shelf_items (filter (shelf_visited include_people) shelves))) st = Inr st'"
  using assms
proof (induction shelves arbitrary: st)
  case Nil
  then show ?case by simp
next
  case (Cons shelf rest)
  from Cons.prems obtain st1 where
    one: "process_shelf include_people query filter_type shelf st = Inr st1"
    and more: "shelves_loop include_people query filter_type rest st1 = Inr st'"
    by (auto split: sum.splits)
  from one obtain kvs where shelf: "shelf = JObj kvs"
    by (cases shelf) (auto simp: process_shelf_def)
  from one shelf obtain skip where
    skip: "skip_shelf include_people (dict_get kvs ''id'' (JStr '''')) = Inr skip"
    by (auto simp: process_shelf_def Let_def split: sum.splits)
  show ?case
  proof (cases skip)
    case True
    with one shelf skip have "st1 = st"
      by (simp add: process_shelf_def Let_def)
    moreover from True shelf skip have "\<not> shelf_visited include_people shelf"
      by (simp add: shelf_visited_def)
    ultimately show ?thesis
      using Cons.IH [OF more] by simp
  next
    case False
    with one shelf skip obtain items where
      iter: "py_iter (dict_get kvs ''items'' (JArr [])) = Inr items"
      and run: "items_loop query filter_type (enumerate 0 items) st = Inr st1"
      by (auto simp: process_shelf_def Let_def split: sum.splits)
    from False shelf skip have "shelf_visited include_people shelf"
      by (simp add: shelf_visited_def)
    moreover from shelf iter have "shelf_items shelf = enumerate 0 items"
      by (simp add: shelf_items_def)
    ultimately show ?thesis
      using Cons.IH [OF more] run by (simp add: items_loop_append)
  qed
qed

lemma search_Inr_items_loop:
  assumes "search include_people (Decoded data) query max_results filter_type = (diags, Inr rs)"
  shows "\<exists>acc seen. items_loop query filter_type (visited_items include_people data) ([], [])
                       = Inr (acc, seen)
                   \<and> rs = sort_and_truncate acc max_results"
proof -
  from assms obtain shelves where shelves: "get_shelves data = Inr shelves"
    by (auto simp: search_def split: sum.splits)
  show ?thesis
  proof (cases "py_truthy shelves")
    case False
    with assms shelves have "rs = []"
      by (simp add: search_def)
    moreover from False shelves have "visited_items include_people data = []"
      by (simp add: visited_items_def response_shelves_def)
    ultimately show ?thesis
      by (simp add: sort_and_truncate_def split: option.splits)
  next
    case True
    with assms shelves obtain shelf_list acc seen where
      iter: "py_iter shelves = Inr shelf_list"
      and loop: "shelves_loop include_people query filter_type shelf_list ([], []) = Inr (acc, seen)"
      and rs: "rs = sort_and_truncate acc max_results"
      by (auto simp: search_def split: sum.splits)
    from True shelves iter have "response_shelves data = shelf_list"
      by (simp add: response_shelves_def)
    with shelves_loop_items_loop [OF loop] rs show ?thesis
      by (auto simp: visited_items_def)
  qed
qed

lemma py_truthy_py_key: "py_truthy (py_key a) = py_truthy a"
  by (cases a) auto

lemma py_key_eq_truthy: "py_key a = py_key b \<Longrightarrow> py_truthy a = py_truthy b"
  by (metis py_truthy_py_key)

lemma entry_of_id: "entry_of query filter_type occ = Some r \<Longrightarrow> result_id r = item_id (snd occ)"
  by (cases "snd occ")
    (auto simp: entry_of_def item_id_def make_result_def Let_def
      split: sum.splits option.splits if_splits json.splits)

lemma process_item_cases:
  assumes "process_item query filter_type position item (rs, seen) = Inr st'"
  shows "(\<not> py_truthy (item_id item) \<or> py_key (item_id item) \<in> set (map py_key seen))
           \<and> st' = (rs, seen)
         \<or> py_truthy (item_id item) \<and> py_key (item_id item) \<notin> set (map py_key seen)
           \<and> st' = (rs @ (case entry_of query filter_type (position, item) of
                             None \<Rightarrow> [] | Some r \<Rightarrow> [r]),
                     item_id item # seen)"
  using assms
  by (cases item)
    (auto simp: process_item_def item_id_def entry_of_def seen_contains_def Let_def
      split: sum.splits option.splits if_splits)

lemma items_loop_seen_keys:
  assumes "items_loop query filter_type xs (rs, seen) = Inr (rs', seen')"
  shows "set (map py_key seen') =
           set (map py_key seen) \<union> occ_key ` {x \<in> set xs. py_truthy (item_id (snd x))}"
  using assms
proof (induction xs arbitrary: rs seen)
  case Nil
  then show ?case by simp
next
  case (Cons x xs)
  obtain position item where x: "x = (position, item)"
    by (cases x)
  from Cons.prems x obtain rs1 seen1 where
    one: "process_item query filter_type position item (rs, seen) = Inr (rs1, seen1)"
    and more: "items_loop query filter_type xs (rs1, seen1) = Inr (rs', seen')"
    by (auto split: sum.splits)
  from process_item_cases [OF one]
  have step: "set (map py_key seen1) =
          set (map py_key seen)
          \<union> (if py_truthy (item_id item) then {py_key (item_id item)} else {})"
    by auto
  have "{y \<in> set (x # xs). py_truthy (item_id (snd y))} =
          (if py_truthy (item_id item) then {x} else {})
          \<union> {y \<in> set xs. py_truthy (item_id (snd y))}"
    by (auto simp: x)
  then have "occ_key ` {y \<in> set (x # xs). py_truthy (item_id (snd y))} =
          (if py_truthy (item_id item) then {py_key (item_id item)} else {})
          \<union> occ_key ` {y \<in> set xs. py_truthy (item_id (snd y))}"
    by (simp add: image_Un occ_key_def x)
  with Cons.IH [OF more] step show ?case
    by (simp add: Un_assoc)
qed

lemma items_loop_results:
  assumes "items_loop query filter_type xs (rs, seen) = Inr (rs', seen')"
  shows "\<exists>news. rs' = rs @ news
           \<and> distinct (map (\<lambda>r. py_key (result_id r)) news)
           \<and> (\<forall>r \<in> set news.
                 py_truthy (result_id r)
                 \<and> py_key (result_id r) \<notin> set (map py_key seen)
                 \<and> (\<exists>pre x post. xs = pre @ x # post \<and> occ_key x \<notin> occ_key ` set pre
                        \<and> entry_of query filter_type x = Some r))"
  using assms
proof (induction xs arbitrary: rs seen)
  case Nil
  then show ?case by simp
next
  case (Cons x xs)
  obtain position item where x: "x = (position, item)"
    by (cases x)
  from Cons.prems x obtain rs1 seen1 where
    one: "process_item query filter_type position item (rs, seen) = Inr (rs1, seen1)"
    and more: "items_loop query filter_type xs (rs1, seen1) = Inr (rs', seen')"
    by (auto split: sum.splits)
  from Cons.IH [OF more] obtain news where
    rs': "rs' = rs1 @ news"
    and dist: "distinct (map (\<lambda>r. py_key (result_id r)) news)"
    and each: "\<And>r. r \<in> set news \<Longrightarrow>
                 py_truthy (result_id r)
                 \<and> py_key (result_id r) \<notin> set (map py_key seen1)
                 \<and> (\<exists>pre y post. xs = pre @ y # post \<and> occ_key y \<notin> occ_key ` set pre
                        \<and> entry_of query filter_type y = Some r)"
    by blast
  have later: "py_truthy (result_id r) \<and> py_key (result_id r) \<notin> set (map py_key seen)
                 \<and> (\<exists>pre y post. x # xs = pre @ y # post \<and> occ_key y \<notin> occ_key ` set pre
                        \<and> entry_of query filter_type y = Some r)"
    if r: "r \<in> set news" and sub: "set (map py_key seen) \<subseteq> set (map py_key seen1)"
      and differs: "py_truthy (item_id item) \<Longrightarrow> py_key (item_id item) \<in> set (map py_key seen1)"
    for r
  proof -
    from each [OF r] obtain pre y post where
      t: "py_truthy (result_id r)"
      and n: "py_key (result_id r) \<notin> set (map py_key seen1)"
      and split: "xs = pre @ y # post"
      and first: "occ_key y \<notin> occ_key ` set pre"
      and entry: "entry_of query filter_type y = Some r"
      by blast
    from entry have id: "result_id r = item_id (snd y)"
      by (rule entry_of_id)
    have "occ_key y \<noteq> occ_key x"
    proof
      assume eq: "occ_key y = occ_key x"
      then have "py_key (result_id r) = py_key (item_id item)"
        by (simp add: occ_key_def id x)
      moreover from this t have "py_truthy (item_id item)"
        using py_key_eq_truthy by blast
      ultimately show False
        using differs n by simp
    qed
    with first have "occ_key y \<notin> occ_key ` set (x # pre)"
      by simp
    moreover from split have "x # xs = (x # pre) @ y # post"
      by simp
    ultimately show ?thesis
      using t n sub entry by blast
  qed
  from process_item_cases [OF one] consider
    (skipped) "\<not> py_truthy (item_id item) \<or> py_key (item_id item) \<in> set (map py_key seen)"
      "(rs1, seen1) = (rs, seen)"
    | (added) "py_truthy (item_id item)" "py_key (item_id item) \<notin> set (map py_key seen)"
      "(rs1, seen1) = (rs @ (case entry_of query filter_type (position, item) of
                             None \<Rightarrow> [] | Some r \<Rightarrow> [r]), item_id item # seen)"
    by blast
  then show ?case
  proof cases
    case skipped
    note st = skipped(2)
    from st rs' have "rs' = rs @ news"
      by simp
    moreover have "\<forall>r \<in> set news.
                 py_truthy (result_id r)
                 \<and> py_key (result_id r) \<notin> set (map py_key seen)
                 \<and> (\<exists>pre y post. x # xs = pre @ y # post \<and> occ_key y \<notin> occ_key ` set pre
                        \<and> entry_of query filter_type y = Some r)"
    proof
      fix r
      assume r: "r \<in> set news"
      from st have sub: "set (map py_key seen) \<subseteq> set (map py_key seen1)"
        by simp
      from st skipped(1)
      have differs: "py_truthy (item_id item) \<Longrightarrow> py_key (item_id item) \<in> set (map py_key seen1)"
        by auto
      from later [OF r sub differs]
      show "py_truthy (result_id r)
                 \<and> py_key (result_id r) \<notin> set (map py_key seen)
                 \<and> (\<exists>pre y post. x # xs = pre @ y # post \<and> occ_key y \<notin> occ_key ` set pre
                        \<and> entry_of query filter_type y = Some r)"
        by blast
    qed
    ultimately show ?thesis
      using dist by blast
  next
    case added
    note truthy = added(1) and fresh = added(2) and st = added(3)
    let ?own = "case entry_of query filter_type (position, item) of None \<Rightarrow> [] | Some r \<Rightarrow> [r]"
    from st rs' have app: "rs' = rs @ (?own @ news)"
      by simp
    have rest: "\<forall>r \<in> set news.
                 py_truthy (result_id r)
                 \<and> py_key (result_id r) \<notin> set (map py_key seen)
                 \<and> (\<exists>pre y post. x # xs = pre @ y # post \<and> occ_key y \<notin> occ_key ` set pre
                        \<and> entry_of query filter_type y = Some r)"
    proof
      fix r
      assume r: "r \<in> set news"
      from st have sub: "set (map py_key seen) \<subseteq> set (map py_key seen1)"
        by auto
      from st
      have differs: "py_truthy (item_id item) \<Longrightarrow> py_key (item_id item) \<in> set (map py_key seen1)"
        by auto
      from later [OF r sub differs]
      show "py_truthy (result_id r)
                 \<and> py_key (result_id r) \<notin> set (map py_key seen)
                 \<and> (\<exists>pre y post. x # xs = pre @ y # post \<and> occ_key y \<notin> occ_key ` set pre
                        \<and> entry_of query filter_type y = Some r)"
        by blast
    qed
    have own: "py_truthy (result_id r) \<and> py_key (result_id r) \<notin> set (map py_key seen)
                 \<and> (\<exists>pre y post. x # xs = pre @ y # post \<and> occ_key y \<notin> occ_key ` set pre
                        \<and> entry_of query filter_type y = Some r)
                 \<and> py_key (result_id r) \<notin> (\<lambda>r. py_key (result_id r)) ` set news"
      if r: "r \<in> set ?own" for r
    proof -
      from r have entry: "entry_of query filter_type x = Some r"
        by (auto simp: x split: option.splits)
      then have id: "result_id r = item_id item"
        using entry_of_id [of query filter_type x r] by (simp add: x)
      have "x # xs = [] @ x # xs" "occ_key x \<notin> occ_key ` set []"
        by simp_all
      moreover have "py_key (result_id r) \<notin> (\<lambda>r. py_key (result_id r)) ` set news"
      proof
        assume "py_key (result_id r) \<in> (\<lambda>r. py_key (result_id r)) ` set news"
        then obtain r' where "r' \<in> set news" "py_key (result_id r') = py_key (result_id r)"
          by auto
        with each [of r'] st id show False
          by auto
      qed
      ultimately show ?thesis
        using truthy fresh id entry by metis
    qed
    have "distinct (map (\<lambda>r. py_key (result_id r)) (?own @ news))"
      using dist own by (auto split: option.splits)
    moreover have "\<forall>r \<in> set (?own @ news).
                 py_truthy (result_id r)
                 \<and> py_key (result_id r) \<notin> set (map py_key seen)
                 \<and> (\<exists>pre y post. x # xs = pre @ y # post \<and> occ_key y \<notin> occ_key ` set pre
                        \<and> entry_of query filter_type y = Some r)"
    proof
      fix r
      assume "r \<in> set (?own @ news)"
      then consider "r \<in> set ?own" | "r \<in> set news"
        by auto
      then show "py_truthy (result_id r)
                 \<and> py_key (result_id r) \<notin> set (map py_key seen)
                 \<and> (\<exists>pre y post. x # xs = pre @ y # post \<and> occ_key y \<notin> occ_key ` set pre
                        \<and> entry_of query filter_type y = Some r)"
      proof cases
        case 1
        from own [OF 1] show ?thesis
          by blast
      next
        case 2
        with rest show ?thesis
          by blast
      qed
    qed
    ultimately show ?thesis
      using app by blast
  qed
qed

lemma first_occurrence_unique:
  assumes "pre @ x # post = pre' @ x' # post'"
    and "f x = f x'" and "f x \<notin> f ` set pre" and "f x' \<notin> f ` set pre'"
  shows "pre = pre' \<and> x = x'"
  using assms
proof (induction pre arbitrary: pre')
  case Nil
  then show ?case by (cases pre') auto
next
  case (Cons a pre)
  then show ?case by (cases pre') auto
qed

lemma items_loop_prefix_run:
  assumes "items_loop query filter_type (pre @ rest) st = Inr st'"
  shows "\<exists>st1. items_loop query filter_type pre st = Inr st1
              \<and> items_loop query filter_type rest st1 = Inr st'"
  using assms by (auto simp: items_loop_append split: sum.splits)

lemma later_occurrence_skipped:
  assumes "items_loop query filter_type (pre @ x # post) ([], []) = Inr st'"
  shows "\<exists>rs1 seen1. items_loop query filter_type pre ([], []) = Inr (rs1, seen1)
           \<and> set (map py_key seen1) = occ_key ` {y \<in> set pre. py_truthy (item_id (snd y))}
           \<and> (occ_key x \<in> occ_key ` set pre \<longrightarrow>
                process_item query filter_type (fst x) (snd x) (rs1, seen1) = Inr (rs1, seen1))"
proof -
  from items_loop_prefix_run [OF assms] obtain rs1 seen1 where
    pre: "items_loop query filter_type pre ([], []) = Inr (rs1, seen1)"
    and rest: "items_loop query filter_type (x # post) (rs1, seen1) = Inr st'"
    by (metis surj_pair)
  from items_loop_seen_keys [OF pre]
  have keys: "set (map py_key seen1) = occ_key ` {y \<in> set pre. py_truthy (item_id (snd y))}"
    by simp
  from rest obtain st2 where
    one: "process_item query filter_type (fst x) (snd x) (rs1, seen1) = Inr st2"
    by (cases x) (auto split: sum.splits)
  have "st2 = (rs1, seen1)" if dup: "occ_key x \<in> occ_key ` set pre"
  proof (cases "py_truthy (item_id (snd x))")
    case False
    with process_item_cases [OF one] show ?thesis
      by blast
  next
    case True
    from dup obtain y where y: "y \<in> set pre" "occ_key y = occ_key x"
      by auto
    with True have "py_truthy (item_id (snd y))"
      using py_key_eq_truthy [of "item_id (snd y)" "item_id (snd x)"] by (simp add: occ_key_def)
    with y have "occ_key x \<in> occ_key ` {y \<in> set pre. py_truthy (item_id (snd y))}"
      by (metis (mono_tags, lifting) image_eqI mem_Collect_eq)
    with keys have "py_key (item_id (snd x)) \<in> set (map py_key seen1)"
      by (simp add: occ_key_def)
    with process_item_cases [OF one] show ?thesis
      by blast
  qed
  with pre keys one show ?thesis
    by auto
qed

lemma first_occurrence_processed:
  assumes run: "items_loop query filter_type (pre @ x # post) ([], []) = Inr (rs', seen')"
    and truthy: "py_truthy (item_id (snd x))"
    and first: "occ_key x \<notin> occ_key ` set pre"
  shows "\<exists>rs1 seen1 news.
           items_loop query filter_type pre ([], []) = Inr (rs1, seen1)
           \<and> process_item query filter_type (fst x) (snd x) (rs1, seen1)
               = Inr (rs1 @ (case entry_of query filter_type x of None \<Rightarrow> [] | Some r \<Rightarrow> [r]),
                      item_id (snd x) # seen1)
           \<and> py_key (item_id (snd x)) \<notin> set (map py_key seen1)
           \<and> rs' = rs1 @ (case entry_of query filter_type x of None \<Rightarrow> [] | Some r \<Rightarrow> [r]) @ news"
proof -
  from items_loop_prefix_run [OF run] obtain rs1 seen1 where
    pre: "items_loop query filter_type pre ([], []) = Inr (rs1, seen1)"
    and rest: "items_loop query filter_type (x # post) (rs1, seen1) = Inr (rs', seen')"
    by (metis surj_pair)
  from items_loop_seen_keys [OF pre] first
  have fresh: "py_key (item_id (snd x)) \<notin> set (map py_key seen1)"
    by (auto simp: occ_key_def)
  from rest obtain rs2 seen2 where
    one: "process_item query filter_type (fst x) (snd x) (rs1, seen1) = Inr (rs2, seen2)"
    and more: "items_loop query filter_type post (rs2, seen2) = Inr (rs', seen')"
    by (cases x) (auto split: sum.splits)
  from process_item_cases [OF one] truthy fresh
  have st2: "(rs2, seen2) =
               (rs1 @ (case entry_of query filter_type x of None \<Rightarrow> [] | Some r \<Rightarrow> [r]),
                item_id (snd x) # seen1)"
    by auto
  from items_loop_results [OF more] obtain news where "rs' = rs2 @ news"
    by blast
  with pre one st2 fresh show ?thesis
    by auto
qed

lemma first_occurrence_kept:
  assumes "items_loop query filter_type (pre @ x # post) ([], []) = Inr (rs', seen')"
    and "py_truthy (item_id (snd x))"
    and "occ_key x \<notin> occ_key ` set pre"
    and "entry_of query filter_type x = Some r"
  shows "r \<in> set rs'"
  using first_occurrence_processed [OF assms(1-3)] assms(4) by auto

section \<open>Deduplication\<close>

lemma search_Inr_accumulated:
  assumes "search include_people (Decoded data) query max_results filter_type = (diags, Inr rs)"
  shows "\<exists>acc seen.
           items_loop query filter_type (visited_items include_people data) ([], []) = Inr (acc, seen)
           \<and> rs = sort_and_truncate acc max_results
           \<and> distinct (map (\<lambda>r. py_key (result_id r)) acc)
           \<and> (\<forall>r \<in> set acc. \<exists>pre x post.
                  visited_items include_people data = pre @ x # post
                  \<and> occ_key x \<notin> occ_key ` set pre
                  \<and> entry_of query filter_type x = Some r)"
proof -
  from search_Inr_items_loop [OF assms] obtain acc seen where
    run: "items_loop query filter_type (visited_items include_people data) ([], []) = Inr (acc, seen)"
    and rs: "rs = sort_and_truncate acc max_results"
    by blast
  from items_loop_results [OF run] run rs show ?thesis
    by auto
qed

text \<open>
  C2, as stated, at a response whose first shelf is a people shelf: the identifier
  \<open>X123\<close> first occurs there, the shelf is skipped without recording it, and the later
  occurrence in the second shelf is returned.
\<close>

theorem C2_skipped_shelf_records_nothing_counterexample:
  "process_shelf False ''ted'' None
     (example_shelf ''uts.col.Featured.PN'' [example_item ''X123'' ''Ted'' ''/person/x''])
     ([], []) = Inr ([], [])
   \<and> search False
       (Decoded (example_response
          [example_shelf ''uts.col.Featured.PN'' [example_item ''X123'' ''Ted'' ''/person/x''],
           example_shelf ''uts.col.movies'' [example_item ''X123'' ''Ted'' ''/movie/x'']]))
       ''ted'' None None
     = ([], Inr [example_result 1150 ''X123'' ''Ted'' ''/movie/x''])"
  by code_simp

text \<open>
  C2, amended. Among the occurrences of items in the shelves that are visited (not
  skipped as people shelves), in the order the loops reach them: after any prefix, the
  seen identifiers are exactly the truthy identifiers of that prefix, kept or not; an
  occurrence whose identifier occurs earlier leaves the results and the seen
  identifiers as they are; a first occurrence of a truthy identifier is recorded as
  seen whether or not it yields an entry, and when it yields none, no returned entry
  has its identifier. Every returned entry is the entry of the first occurrence of its
  identifier, and the identifiers of the returned list are distinct.
\<close>

theorem C2_first_visited_occurrence_wins:
  assumes "search include_people (Decoded data) query max_results filter_type = (diags, Inr rs)"
  shows "distinct (map result_id rs)
    \<and> (\<forall>r \<in> set rs. \<exists>pre x post.
          visited_items include_people data = pre @ x # post
          \<and> occ_key x \<notin> occ_key ` set pre
          \<and> entry_of query filter_type x = Some r)
    \<and> (\<forall>pre x post. visited_items include_people data = pre @ x # post \<longrightarrow>
          (\<exists>rs1 seen1.
             items_loop query filter_type pre ([], []) = Inr (rs1, seen1)
             \<and> set (map py_key seen1) = occ_key ` {y \<in> set pre. py_truthy (item_id (snd y))}
             \<and> (occ_key x \<in> occ_key ` set pre \<longrightarrow>
                  process_item query filter_type (fst x) (snd x) (rs1, seen1) = Inr (rs1, seen1))
             \<and> (py_truthy (item_id (snd x)) \<and> occ_key x \<notin> occ_key ` set pre \<longrightarrow>
                  process_item query filter_type (fst x) (snd x) (rs1, seen1)
                    = Inr (rs1 @ (case entry_of query filter_type x of
                                    None \<Rightarrow> [] | Some r \<Rightarrow> [r]),
                           item_id (snd x) # seen1))
             \<and> (occ_key x \<notin> occ_key ` set pre \<and> entry_of query filter_type x = None \<longrightarrow>
                  (\<forall>r \<in> set rs. py_key (result_id r) \<noteq> occ_key x))))"
proof -
  from search_Inr_accumulated [OF assms] obtain acc seen where
    run: "items_loop query filter_type (visited_items include_people data) ([], []) = Inr (acc, seen)"
    and rs: "rs = sort_and_truncate acc max_results"
    and dist: "distinct (map (\<lambda>r. py_key (result_id r)) acc)"
    and origin: "\<And>r. r \<in> set acc \<Longrightarrow> \<exists>pre x post.
                  visited_items include_people data = pre @ x # post
                  \<and> occ_key x \<notin> occ_key ` set pre
                  \<and> entry_of query filter_type x = Some r"
    by blast
  from dist have "distinct (map py_key (map result_id acc))"
    by (simp add: comp_def)
  then have "distinct (map result_id acc)"
    using distinct_map [of py_key "map result_id acc"] by blast
  then have c1: "distinct (map result_id rs)"
    unfolding rs by (rule distinct_map_sort_and_truncate)
  have sub: "set rs \<subseteq> set acc"
    unfolding rs by (rule set_sort_and_truncate)
  have c2: "\<forall>r \<in> set rs. \<exists>pre x post.
          visited_items include_people data = pre @ x # post
          \<and> occ_key x \<notin> occ_key ` set pre
          \<and> entry_of query filter_type x = Some r"
    using origin sub by blast
  have c3: "\<exists>rs1 seen1.
             items_loop query filter_type pre ([], []) = Inr (rs1, seen1)
             \<and> set (map py_key seen1) = occ_key ` {y \<in> set pre. py_truthy (item_id (snd y))}
             \<and> (occ_key x \<in> occ_key ` set pre \<longrightarrow>
                  process_item query filter_type (fst x) (snd x) (rs1, seen1) = Inr (rs1, seen1))
             \<and> (py_truthy (item_id (snd x)) \<and> occ_key x \<notin> occ_key ` set pre \<longrightarrow>
                  process_item query filter_type (fst x) (snd x) (rs1, seen1)
                    = Inr (rs1 @ (case entry_of query filter_type x of
                                    None \<Rightarrow> [] | Some r \<Rightarrow> [r]),
                           item_id (snd x) # seen1))
             \<and> (occ_key x \<notin> occ_key ` set pre \<and> entry_of query filter_type x = None \<longrightarrow>
                  (\<forall>r \<in> set rs. py_key (result_id r) \<noteq> occ_key x))"
    if split: "visited_items include_people data = pre @ x # post" for pre x post
  proof -
    from run split
    have run': "items_loop query filter_type (pre @ x # post) ([], []) = Inr (acc, seen)"
      by simp
    from later_occurrence_skipped [OF run'] obtain rs1 seen1 where
      pre: "items_loop query filter_type pre ([], []) = Inr (rs1, seen1)"
      and keys: "set (map py_key seen1) = occ_key ` {y \<in> set pre. py_truthy (item_id (snd y))}"
      and later: "occ_key x \<in> occ_key ` set pre \<longrightarrow>
                  process_item query filter_type (fst x) (snd x) (rs1, seen1) = Inr (rs1, seen1)"
      by blast
    have recorded: "process_item query filter_type (fst x) (snd x) (rs1, seen1)
                    = Inr (rs1 @ (case entry_of query filter_type x of
                                    None \<Rightarrow> [] | Some r \<Rightarrow> [r]),
                           item_id (snd x) # seen1)"
      if "py_truthy (item_id (snd x))" "occ_key x \<notin> occ_key ` set pre"
      using first_occurrence_processed [OF run' that] pre by auto
    have burned: "py_key (result_id r) \<noteq> occ_key x"
      if first: "occ_key x \<notin> occ_key ` set pre"
        and none: "entry_of query filter_type x = None" and r: "r \<in> set rs" for r
    proof
      assume eq: "py_key (result_id r) = occ_key x"
      from r sub origin obtain pre' x' post' where
        split': "visited_items include_people data = pre' @ x' # post'"
        and first': "occ_key x' \<notin> occ_key ` set pre'"
        and entry: "entry_of query filter_type x' = Some r"
        by blast
      from entry_of_id [OF entry] eq have "occ_key x = occ_key x'"
        by (simp add: occ_key_def)
      with split split' first first' have "x = x'"
        using first_occurrence_unique [of pre x post pre' x' post' occ_key] by simp
      with entry none show False
        by simp
    qed
    from pre keys later recorded burned show ?thesis
      by blast
  qed
  from c1 c2 c3 show ?thesis
    by blast
qed

theorem C2_first_visited_occurrence_wins_witness:
  "distinct (map result_id [example_result 649 ''b'' ''Ted Lasso'' ''/show/b''])
   \<and> py_key (result_id (example_result 649 ''b'' ''Ted Lasso'' ''/show/b''))
       \<noteq> occ_key (0, example_item ''a'' ''Ted'' '''')
   \<and> process_item ''ted'' None 0 (example_item ''a'' ''Ted'' ''/movie/a'')
        ([example_result 649 ''b'' ''Ted Lasso'' ''/show/b''], [JStr ''b'', JStr ''a''])
      = Inr ([example_result 649 ''b'' ''Ted Lasso'' ''/show/b''], [JStr ''b'', JStr ''a''])"
proof -
  let ?a1 = "example_item ''a'' ''Ted'' ''''"
  let ?b = "example_item ''b'' ''Ted Lasso'' ''/show/b''"
  let ?a2 = "example_item ''a'' ''Ted'' ''/movie/a''"
  let ?data = "example_response
                 [example_shelf ''uts.col.movies'' [?a1, ?b], example_shelf ''uts.col.shows'' [?a2]]"
  let ?rb = "example_result 649 ''b'' ''Ted Lasso'' ''/show/b''"
  have run: "search False (Decoded ?data) ''ted'' None None = ([], Inr [?rb])"
    by code_simp
  have visited: "visited_items False ?data = [(0, ?a1), (1, ?b)] @ (0, ?a2) # []"
    and visited': "visited_items False ?data = [] @ (0, ?a1) # [(1, ?b), (0, ?a2)]"
    by code_simp+
  have prefix_run: "items_loop ''ted'' None [(0, ?a1), (1, ?b)] ([], [])
                      = Inr ([?rb], [JStr ''b'', JStr ''a''])"
    by code_simp
  have again: "occ_key (0, ?a2) \<in> occ_key ` set [(0, ?a1), (1, ?b)]"
    by (simp add: occ_key_def item_id_def example_item_def dict_get_def)
  have rejected: "occ_key (0, ?a1) \<notin> occ_key ` set []"
    "entry_of ''ted'' None (0, ?a1) = None"
    by (simp, code_simp)
  note c = C2_first_visited_occurrence_wins [OF run]
  note c3 = c [THEN conjunct2, THEN conjunct2, rule_format]
  from c have d: "distinct (map result_id [?rb])"
    by (rule conjunct1)
  from c3 [OF visited] prefix_run again
  have later: "process_item ''ted'' None 0 ?a2 ([?rb], [JStr ''b'', JStr ''a''])
                 = Inr ([?rb], [JStr ''b'', JStr ''a''])"
    by auto
  from c3 [OF visited'] rejected
  have "\<forall>r \<in> set [?rb]. py_key (result_id r) \<noteq> occ_key (0, ?a1)"
    by blast
  then have burned: "py_key (result_id ?rb) \<noteq> occ_key (0, ?a1)"
    by (rule bspec) simp
  from d burned later show ?thesis
    by (intro conjI)
qed

section \<open>Scores of returned entries\<close>

lemma entry_of_score:
  "entry_of query filter_type occ = Some r \<Longrightarrow>
     result_score r = score_result (result_title r) query (int (fst occ))"
  by (cases "snd occ")
    (auto simp: entry_of_def make_result_def Let_def
      split: sum.splits option.splits if_splits json.splits)

lemma visited_items_shelf:
  assumes "x \<in> set (visited_items include_people data)"
  shows "\<exists>shelf \<in> set (response_shelves data).
           shelf_visited include_people shelf \<and> x \<in> set (shelf_items shelf)"
  using assms by (auto simp: visited_items_def)

text \<open>
  C10. The score is never negative and never below the position bonus. So every entry
  of a list that \<open>search\<close> returns has a score of at least \<open>max 0 (100 - position)\<close>,
  hence at least 0, for the position within its shelf of the item it was built from.
\<close>

theorem C10_score_nonnegative:
  "0 \<le> score_result title query position
   \<and> max 0 (100 - position) \<le> score_result title query position
   \<and> search include_people Request_failed query max_results filter_type
       = ([Search_failed], Inr [])
   \<and> (search include_people (Decoded data) query max_results filter_type = (diags, Inr rs) \<longrightarrow>
        (\<forall>r \<in> set rs.
           0 \<le> result_score r
           \<and> (\<exists>shelf \<in> set (response_shelves data).
                 shelf_visited include_people shelf
                 \<and> (\<exists>x \<in> set (shelf_items shelf).
                       entry_of query filter_type x = Some r
                       \<and> result_score r = score_result (result_title r) query (int (fst x))
                       \<and> max 0 (100 - int (fst x)) \<le> result_score r))))"
proof -
  have bound: "max 0 (100 - position) \<le> score_result title query position"
    for title position
    by (rule score_result_lower_bound)
  have entries: "0 \<le> result_score r
           \<and> (\<exists>shelf \<in> set (response_shelves data).
                 shelf_visited include_people shelf
                 \<and> (\<exists>x \<in> set (shelf_items shelf).
                       entry_of query filter_type x = Some r
                       \<and> result_score r = score_result (result_title r) query (int (fst x))
                       \<and> max 0 (100 - int (fst x)) \<le> result_score r))"
    if run: "search include_people (Decoded data) query max_results filter_type = (diags, Inr rs)"
      and r: "r \<in> set rs" for r
  proof -
    from search_Inr_accumulated [OF run] obtain acc where
      rs: "rs = sort_and_truncate acc max_results"
      and origin: "\<And>r. r \<in> set acc \<Longrightarrow> \<exists>pre x post.
                  visited_items include_people data = pre @ x # post
                  \<and> occ_key x \<notin> occ_key ` set pre
                  \<and> entry_of query filter_type x = Some r"
      by blast
    from r rs have "r \<in> set acc"
      using set_sort_and_truncate by blast
    from origin [OF this] obtain pre x post where
      split: "visited_items include_people data = pre @ x # post"
      and entry: "entry_of query filter_type x = Some r"
      by blast
    from split have x: "x \<in> set (visited_items include_people data)"
      by simp
    from entry_of_score [OF entry]
    have score: "result_score r = score_result (result_title r) query (int (fst x))" .
    with bound [of "int (fst x)" "result_title r"]
    have low: "max 0 (100 - int (fst x)) \<le> result_score r"
      by simp
    then have "0 \<le> result_score r"
      by simp
    with visited_items_shelf [OF x] entry score low show ?thesis
      by blast
  qed
  have failed: "search include_people Request_failed query max_results filter_type
                  = ([Search_failed], Inr [])"
    by (simp add: search_def)
  have nonneg: "0 \<le> score_result title query position"
    using bound [of position title] by simp
  have all: "search include_people (Decoded data) query max_results filter_type = (diags, Inr rs) \<longrightarrow>
        (\<forall>r \<in> set rs.
           0 \<le> result_score r
           \<and> (\<exists>shelf \<in> set (response_shelves data).
                 shelf_visited include_people shelf
                 \<and> (\<exists>x \<in> set (shelf_items shelf).
                       entry_of query filter_type x = Some r
                       \<and> result_score r = score_result (result_title r) query (int (fst x))
                       \<and> max 0 (100 - int (fst x)) \<le> result_score r)))"
    using entries by (intro impI ballI)
  show ?thesis
    by (intro conjI nonneg bound failed all)
qed

theorem C10_score_nonnegative_witness:
  "0 \<le> result_score (example_result 649 ''b'' ''Ted Lasso'' ''/show/b'')"
proof -
  let ?data = "example_response
                 [example_shelf ''uts.col.movies''
                    [example_item ''a'' ''Ted'' '''',
                     example_item ''b'' ''Ted Lasso'' ''/show/b'']]"
  let ?rb = "example_result 649 ''b'' ''Ted Lasso'' ''/show/b''"
  have run: "search False (Decoded ?data) ''ted'' None None = ([], Inr [?rb])"
    by code_simp
  from C10_score_nonnegative
         [where include_people = False and data = ?data and query = "''ted''"
            and max_results = None and filter_type = None and diags = "[]" and rs = "[?rb]"]
       run
  have "\<forall>r \<in> set [?rb]. 0 \<le> result_score r"
    by blast
  then show ?thesis
    by simp
qed

section \<open>Person items outside people shelves\<close>

lemma process_item_make_result:
  assumes "process_item query filter_type position (JObj kvs) (rs, seen) = Inr st'"
    and "py_truthy (dict_get kvs ''id'' JNull)"
    and "py_key (dict_get kvs ''id'' JNull) \<notin> set (map py_key seen)"
  shows "\<exists>res. make_result query filter_type position kvs (dict_get kvs ''id'' JNull) = Inr res"
  using assms
  by (auto simp: process_item_def seen_contains_def Let_def split: sum.splits if_splits)

lemma url_person_valid:
  assumes "sublist ''/person/'' url"
  shows "url_invalid (JStr url) = Inr False"
proof -
  from assms have "url \<noteq> []"
    by auto
  with assms show ?thesis
    by (simp add: url_invalid_def)
qed

lemma make_result_person:
  assumes "make_result query None position kvs content_id = Inr res"
    and "dict_get kvs ''url'' (JStr '''') = JStr url"
    and "sublist ''/person/'' url"
  shows "\<exists>r. res = Some r \<and> result_id r = content_id \<and> result_url r = JStr url"
  using assms url_person_valid [OF assms(3)]
  by (auto simp: make_result_def Let_def filtered_out_def split: json.splits)

lemma set_sort_and_truncate_all:
  assumes "\<forall>n. max_results = Some n \<longrightarrow> n \<le> 0"
  shows "set (sort_and_truncate results max_results) = set results"
  using assms by (cases max_results) (auto simp: sort_and_truncate_def)

lemma enumerate_split:
  assumes "position < length items"
  shows "enumerate 0 items =
           take position (enumerate 0 items) @ (position, items ! position)
             # drop (Suc position) (enumerate 0 items)"
proof -
  from assms have "position < length (enumerate 0 items)"
    by simp
  from id_take_nth_drop [OF this] assms show ?thesis
    by (simp add: nth_enumerate_eq)
qed

text \<open>
  C9, as stated, at two searches with include-people unset and no filter. In the
  first, \<open>max_results\<close> is 1: the person item passes URL validation but is cut from the
  sorted list. In the second, the person item has no identifier and is dropped before
  its URL is read.
\<close>

theorem C9_person_item_not_returned_counterexample:
  "skip_shelf False (JStr ''uts.col.results'') = Inr False
   \<and> url_invalid (JStr ''/person/ted-danson'') = Inr False
   \<and> search False
       (Decoded (example_response
          [example_shelf ''uts.col.results''
             [example_item ''m1'' ''Ted'' ''/movie/ted'',
              example_item ''p1'' ''Ted Danson'' ''/person/ted-danson'']]))
       ''ted'' (Some 1) None
     = ([], Inr [example_result 1150 ''m1'' ''Ted'' ''/movie/ted''])
   \<and> search False
       (Decoded (example_response
          [example_shelf ''uts.col.results''
             [JObj [(''title'', JStr ''Ted Danson''), (''url'', JStr ''/person/ted-danson'')]]]))
       ''ted'' None None
     = ([], Inr [])"
  by code_simp

text \<open>
  C9, amended. The include-people option only controls the skipping of shelves. In a
  search with include-people unset, no filter and no truncation (\<open>max_results\<close> absent
  or not positive) that returns, take an item of a shelf whose string identifier
  contains neither \<open>PN\<close> nor, in any case, \<open>people\<close>; let its URL be a string that
  contains \<open>/person/\<close> and its identifier be truthy and not the identifier of an earlier
  item of a visited shelf. Then the item passes URL validation and an entry with its
  identifier and its URL is in the returned list.
\<close>

theorem C9_person_item_in_other_shelf_returned:
  assumes run: "search False (Decoded data) query max_results None = (diags, Inr rs)"
    and no_cut: "\<forall>n. max_results = Some n \<longrightarrow> n \<le> 0"
    and shelves: "response_shelves data = before @ JObj shelf # after"
    and shelf_id: "dict_get shelf ''id'' (JStr '''') = JStr shelf_id"
      "\<not> sublist ''PN'' shelf_id" "\<not> sublist ''people'' (py_lower shelf_id)"
    and items: "dict_get shelf ''items'' (JArr []) = JArr items"
      "position < length items" "items ! position = JObj item"
    and url: "dict_get item ''url'' (JStr '''') = JStr url" "sublist ''/person/'' url"
    and ident: "py_truthy (dict_get item ''id'' JNull)"
    and first: "py_key (dict_get item ''id'' JNull)
                  \<notin> occ_key ` set (concat (map shelf_items (filter (shelf_visited False) before))
                                    @ take position (enumerate 0 items))"
  shows "url_invalid (JStr url) = Inr False
    \<and> (\<exists>r \<in> set rs. result_id r = dict_get item ''id'' JNull \<and> result_url r = JStr url)"
proof -
  let ?pre = "concat (map shelf_items (filter (shelf_visited False) before))
                @ take position (enumerate 0 items)"
  let ?post = "drop (Suc position) (enumerate 0 items)
                 @ concat (map shelf_items (filter (shelf_visited False) after))"
  let ?x = "(position, JObj item)"
  from shelf_id have visited: "shelf_visited False (JObj shelf)"
    by (simp add: shelf_visited_def skip_shelf_def is_people_shelf_def)
  from items(1) have "shelf_items (JObj shelf) = enumerate 0 items"
    by (simp add: shelf_items_def)
  with enumerate_split [OF items(2)] items(3)
  have "shelf_items (JObj shelf) =
          take position (enumerate 0 items) @ ?x # drop (Suc position) (enumerate 0 items)"
    by simp
  with shelves visited have split: "visited_items False data = ?pre @ ?x # ?post"
    by (simp add: visited_items_def)
  from search_Inr_items_loop [OF run] obtain acc seen where
    loop: "items_loop query None (visited_items False data) ([], []) = Inr (acc, seen)"
    and rs: "rs = sort_and_truncate acc max_results"
    by blast
  from loop split
  have loop': "items_loop query None (?pre @ ?x # ?post) ([], []) = Inr (acc, seen)"
    by simp
  have id: "item_id (JObj item) = dict_get item ''id'' JNull"
    by (simp add: item_id_def)
  from ident id have truthy: "py_truthy (item_id (snd ?x))"
    by simp
  from first id have fresh: "occ_key ?x \<notin> occ_key ` set ?pre"
    by (simp add: occ_key_def)
  from first_occurrence_processed [OF loop' truthy fresh] obtain rs1 seen1 st2 where
    one: "process_item query None position (JObj item) (rs1, seen1) = Inr st2"
    and unseen: "py_key (dict_get item ''id'' JNull) \<notin> set (map py_key seen1)"
    by (auto simp: id)
  from process_item_make_result [OF one ident unseen] obtain res where
    made: "make_result query None position item (dict_get item ''id'' JNull) = Inr res"
    by blast
  from make_result_person [OF made url] obtain r where
    r: "res = Some r" "result_id r = dict_get item ''id'' JNull" "result_url r = JStr url"
    by blast
  from made r(1) have "entry_of query None ?x = Some r"
    by (simp add: entry_of_def)
  from first_occurrence_kept [OF loop' truthy fresh this] have "r \<in> set acc" .
  with rs set_sort_and_truncate_all [OF no_cut, of acc] have "r \<in> set rs"
    by simp
  with r(2,3) url_person_valid [OF url(2)] show ?thesis
    by blast
qed

theorem C9_person_item_in_other_shelf_returned_witness:
  "url_invalid (JStr ''/person/ted-danson'') = Inr False
   \<and> (\<exists>r \<in> set [example_result 1150 ''m1'' ''Ted'' ''/movie/ted'',
                  example_result 649 ''p1'' ''Ted Danson'' ''/person/ted-danson''].
         result_id r = JStr ''p1'' \<and> result_url r = JStr ''/person/ted-danson'')"
proof -
  let ?m1 = "example_item ''m1'' ''Ted'' ''/movie/ted''"
  let ?p1 = "example_item ''p1'' ''Ted Danson'' ''/person/ted-danson''"
  let ?item = "[(''id'', JStr ''p1''), (''title'', JStr ''Ted Danson''), (''type'', JStr ''Movie''),
                (''url'', JStr ''/person/ted-danson'')]"
  let ?shelf = "[(''id'', JStr ''uts.col.results''), (''items'', JArr [?m1, ?p1])]"
  let ?data = "example_response [example_shelf ''uts.col.results'' [?m1, ?p1]]"
  let ?rs = "[example_result 1150 ''m1'' ''Ted'' ''/movie/ted'',
              example_result 649 ''p1'' ''Ted Danson'' ''/person/ted-danson'']"
  have run: "search False (Decoded ?data) ''ted'' None None = ([], Inr ?rs)"
    by code_simp
  have no_cut: "\<forall>n. (None :: int option) = Some n \<longrightarrow> n \<le> 0"
    by simp
  have shelves: "response_shelves ?data = [] @ JObj ?shelf # []"
    by code_simp
  have shelf_id: "dict_get ?shelf ''id'' (JStr '''') = JStr ''uts.col.results''"
    "\<not> sublist ''PN'' ''uts.col.results''"
    "\<not> sublist ''people'' (py_lower ''uts.col.results'')"
    by code_simp+
  have items: "dict_get ?shelf ''items'' (JArr []) = JArr [?m1, ?p1]"
    "1 < length [?m1, ?p1]" "[?m1, ?p1] ! 1 = JObj ?item"
    by (simp_all add: dict_get_def example_item_def)
  have url: "dict_get ?item ''url'' (JStr '''') = JStr ''/person/ted-danson''"
    "sublist ''/person/'' ''/person/ted-danson''"
    by code_simp+
  have ident: "py_truthy (dict_get ?item ''id'' JNull)"
    by (simp add: dict_get_def)
  have first: "py_key (dict_get ?item ''id'' JNull)
                 \<notin> occ_key ` set (concat (map shelf_items (filter (shelf_visited False) []))
                                   @ take 1 (enumerate 0 [?m1, ?p1]))"
    by (simp add: dict_get_def occ_key_def item_id_def example_item_def)
  have id: "dict_get ?item ''id'' JNull = JStr ''p1''"
    by (simp add: dict_get_def)
  from C9_person_item_in_other_shelf_returned
         [OF run no_cut shelves shelf_id items url ident first]
  show ?thesis
    unfolding id .
qed

section \<open>Responses on which search returns\<close>

lemma opt_str_cases:
  assumes "opt_str kvs key"
  shows "map_of kvs key = None \<or> (\<exists>s. map_of kvs key = Some (JStr s))"
  using assms by (auto simp: opt_str_def split: option.splits json.splits)

lemma url_invalid_str: "\<exists>b. url_invalid (JStr u) = Inr b"
  by (auto simp: url_invalid_def)

lemma filtered_out_str: "\<exists>b. filtered_out filter_type (JStr u) = Inr b"
  by (cases filter_type) (auto simp: filtered_out_def Let_def)

lemma make_result_shaped:
  assumes "opt_str kvs ''title''" and "opt_str kvs ''url''"
  shows "\<exists>res. make_result query filter_type position kvs content_id = Inr res"
proof -
  from opt_str_cases [OF assms(1)] obtain t where
    t: "dict_get kvs ''title'' (JStr ''Unknown'') = JStr t"
    by (auto simp: dict_get_def)
  from opt_str_cases [OF assms(2)] obtain u where
    u: "dict_get kvs ''url'' (JStr '''') = JStr u"
    by (auto simp: dict_get_def)
  from url_invalid_str [of u] filtered_out_str [of filter_type u] show ?thesis
    by (auto simp: make_result_def Let_def t u)
qed

lemma process_item_shaped:
  assumes "shaped_item item"
  shows "\<exists>st'. process_item query filter_type position item st = Inr st'"
proof -
  from assms obtain kvs where item: "item = JObj kvs"
    and id: "opt_str kvs ''id''" and title: "opt_str kvs ''title''" and url: "opt_str kvs ''url''"
    by (cases item) (auto simp: shaped_item_def)
  from opt_str_cases [OF id]
  have hashable: "py_hashable (dict_get kvs ''id'' JNull)"
    by (auto simp: dict_get_def)
  from make_result_shaped [OF title url] obtain res where
    "make_result query filter_type position kvs (dict_get kvs ''id'' JNull) = Inr res"
    by blast
  with hashable show ?thesis
    by (simp add: process_item_def item seen_contains_def Let_def split: option.splits)
qed

lemma items_loop_shaped:
  assumes "list_all shaped_item (map snd xs)"
  shows "\<exists>st'. items_loop query filter_type xs st = Inr st'"
  using assms
proof (induction xs arbitrary: st)
  case Nil
  then show ?case by simp
next
  case (Cons x xs)
  obtain position item where x: "x = (position, item)"
    by (cases x)
  with Cons.prems have "shaped_item item" and rest: "list_all shaped_item (map snd xs)"
    by simp_all
  from process_item_shaped [OF this(1)] obtain st1 where
    "process_item query filter_type position item st = Inr st1"
    by blast
  with Cons.IH [OF rest, of st1] x show ?case
    by simp
qed

lemma skip_shelf_str: "\<exists>b. skip_shelf include_people (JStr s) = Inr b"
  by (auto simp: skip_shelf_def is_people_shelf_def)

lemma process_shelf_shaped:
  assumes "shaped_shelf shelf"
  shows "\<exists>st'. process_shelf include_people query filter_type shelf st = Inr st'"
proof -
  from assms obtain kvs where shelf: "shelf = JObj kvs" and id: "opt_str kvs ''id''"
    and items: "map_of kvs ''items'' = None
                \<or> (\<exists>items. map_of kvs ''items'' = Some (JArr items) \<and> list_all shaped_item items)"
    by (cases shelf) (auto simp: shaped_shelf_def split: option.splits json.splits)
  from opt_str_cases [OF id] obtain s where s: "dict_get kvs ''id'' (JStr '''') = JStr s"
    by (auto simp: dict_get_def)
  from skip_shelf_str [of include_people s] obtain skip where
    skip: "skip_shelf include_people (JStr s) = Inr skip"
    by blast
  from items obtain its where its: "dict_get kvs ''items'' (JArr []) = JArr its"
    and shaped: "list_all shaped_item its"
    by (auto simp: dict_get_def)
  from shaped have "list_all shaped_item (map snd (enumerate 0 its))"
    by simp
  from items_loop_shaped [OF this, of query filter_type st] obtain st' where
    "items_loop query filter_type (enumerate 0 its) st = Inr st'"
    by blast
  with s skip its show ?thesis
    by (simp add: process_shelf_def shelf Let_def)
qed

lemma shelves_loop_shaped:
  assumes "list_all shaped_shelf shelves"
  shows "\<exists>st'. shelves_loop include_people query filter_type shelves st = Inr st'"
  using assms
proof (induction shelves arbitrary: st)
  case Nil
  then show ?case by simp
next
  case (Cons shelf rest)
  then have "shaped_shelf shelf" and rest: "list_all shaped_shelf rest"
    by simp_all
  from process_shelf_shaped [OF this(1)] obtain st1 where
    "process_shelf include_people query filter_type shelf st = Inr st1"
    by blast
  with Cons.IH [OF rest, of st1] show ?case
    by simp
qed

lemma get_shelves_shaped:
  assumes "shaped_response data"
  shows "\<exists>shelves. get_shelves data = Inr (JArr shelves) \<and> list_all shaped_shelf shelves"
proof -
  from assms obtain root where data: "data = JObj root"
    by (cases data) (simp_all add: shaped_response_def)
  show ?thesis
  proof (cases "map_of root ''data''")
    case None
    then show ?thesis
      by (simp add: data get_shelves_def dict_get_def)
  next
    case (Some v)
    with assms data obtain d where d: "v = JObj d"
      by (cases v) (simp_all add: shaped_response_def)
    show ?thesis
    proof (cases "map_of d ''canvas''")
      case None
      with Some d show ?thesis
        by (simp add: data get_shelves_def dict_get_def)
    next
      case canvas: (Some c)
      with assms data Some d obtain cv where cv: "c = JObj cv"
        by (cases c) (simp_all add: shaped_response_def)
      show ?thesis
      proof (cases "map_of cv ''shelves''")
        case None
        with Some d canvas cv show ?thesis
          by (simp add: data get_shelves_def dict_get_def)
      next
        case shelves: (Some sv)
        with assms data Some d canvas cv obtain shs where
          "sv = JArr shs" "list_all shaped_shelf shs"
          by (cases sv) (simp_all add: shaped_response_def)
        with Some d canvas cv shelves show ?thesis
          by (simp add: data get_shelves_def dict_get_def)
      qed
    qed
  qed
qed

text \<open>
  C8, at the response body \<open>{"data": null}\<close>. In \<^verbatim>\<open>search\<close> the key is present, so the
  default of \<^verbatim>\<open>data.get("data", {})\<close> does not apply, \<^verbatim>\<open>None.get\<close> raises
  \<^verbatim>\<open>AttributeError\<close>, and the line stands after the \<^verbatim>\<open>try\<close> block, whose \<^verbatim>\<open>except\<close>
  clause names \<^verbatim>\<open>requests.RequestException\<close> only: the exception leaves \<^verbatim>\<open>search\<close> and
  nothing is reported. The resolver reads the same body with the same call inside its
  \<^verbatim>\<open>try\<close> block under \<^verbatim>\<open>except Exception\<close>: it reports the failure and returns
  \<^verbatim>\<open>None\<close>.
\<close>

theorem C8_null_data_raises_AttributeError:
  "search False (Decoded (JObj [(''data'', JNull)])) ''ted'' None None
     = ([], Inl AttributeError)
   \<and> get_storefront_for_region repr (Decoded (JObj [(''data'', JNull)])) ''us''
     = ([Storefronts_failed], None)"
  by (simp add: search_def get_shelves_def get_storefront_for_region_def dict_get_def)

text \<open>
  Where \<open>search\<close> does return. On a failed request it reports the failure and returns
  the empty list. On a response whose shelf list is read as absent or falsy it returns
  the empty list. On every response of the documented shape, with any of its keys
  absent, it returns a list and raises nothing.
\<close>

theorem search_returns_on_shaped_responses:
  "search include_people Request_failed query max_results filter_type
     = ([Search_failed], Inr [])
   \<and> (get_shelves data = Inr shelves \<and> \<not> py_truthy shelves \<longrightarrow>
        search include_people (Decoded data) query max_results filter_type = ([], Inr []))
   \<and> (shaped_response data \<longrightarrow>
        (\<exists>rs. search include_people (Decoded data) query max_results filter_type = ([], Inr rs)))"
proof -
  have shaped: "\<exists>rs. search include_people (Decoded data) query max_results filter_type
                       = ([], Inr rs)"
    if "shaped_response data"
  proof -
    from get_shelves_shaped [OF that] obtain shelves where
      get: "get_shelves data = Inr (JArr shelves)" and all: "list_all shaped_shelf shelves"
      by blast
    from shelves_loop_shaped [OF all, of include_people query filter_type "([], [])"]
    obtain st' where "shelves_loop include_people query filter_type shelves ([], []) = Inr st'"
      by blast
    with get show ?thesis
      by (simp add: search_def)
  qed
  then show ?thesis
    by (simp add: search_def)
qed

theorem search_returns_on_shaped_responses_example:
  "search False (Decoded (JObj [])) ''ted'' None None = ([], Inr [])
   \<and> (\<exists>rs. search False
              (Decoded (example_response
                 [example_shelf ''uts.col.movies'' [example_item ''a'' ''Ted'' ''/movie/a'']]))
              ''ted'' None None = ([], Inr rs))"
proof -
  let ?data = "example_response
                 [example_shelf ''uts.col.movies'' [example_item ''a'' ''Ted'' ''/movie/a'']]"
  have absent: "get_shelves (JObj []) = Inr (JArr []) \<and> \<not> py_truthy (JArr [])"
    by code_simp
  have shaped: "shaped_response ?data"
    by code_simp
  from search_returns_on_shaped_responses
         [where data = "JObj []" and shelves = "JArr []" and include_people = False
            and query = "''ted''" and max_results = None and filter_type = None]
       absent
  have a: "search False (Decoded (JObj [])) ''ted'' None None = ([], Inr [])"
    by blast
  from search_returns_on_shaped_responses
         [where data = ?data and include_people = False
            and query = "''ted''" and max_results = None and filter_type = None]
       shaped
  have b: "\<exists>rs. search False (Decoded ?data) ''ted'' None None = ([], Inr rs)"
    by blast
  from a b show ?thesis
    by (rule conjI)
qed

section \<open>The region resolver and its fallback\<close>

lemma resolver_request_failed:
  "get_storefront_for_region repr Request_failed region = ([Storefronts_failed], None)"
  by (simp add: get_storefront_for_region_def)

lemma resolver_unknown_region:
  assumes "map_of regions (py_upper region) = None"
  shows "get_storefront_for_region repr (Decoded (JObj [(''data'', JObj regions)])) region
           = ([], None)"
  using assms by (simp add: get_storefront_for_region_def dict_get_def)

lemma resolver_malformed:
  assumes "\<forall>kvs. data \<noteq> JObj kvs"
  shows "get_storefront_for_region repr (Decoded data) region = ([Storefronts_failed], None)"
  using assms by (cases data) (simp_all add: get_storefront_for_region_def)

lemma init_storefront_fallback:
  assumes "region \<noteq> []" and "\<not> opt_truthy storefront_id"
    and "get_storefront_for_region repr response region = (diags, None)"
  shows "init_storefront repr response storefront_id (Some region)
           = (diags @ [Region_fallback region], ''143441'')"
  using assms by (simp add: init_storefront_def opt_truthy_def)

lemma py_upper_us: "py_upper ''us'' = ''US''"
  by code_simp

text \<open>
  C7, at a storefront directory whose record for \<open>US\<close> has no \<^verbatim>\<open>storefrontId\<close> key:
  \<^verbatim>\<open>region_data.get("storefrontId")\<close> is \<^verbatim>\<open>None\<close>, and \<^verbatim>\<open>str(None)\<close> makes the resolver
  return the string \<open>None\<close>. The string is truthy, so \<^verbatim>\<open>__init__\<close> takes it as the
  storefront identifier, without the fallback to \<open>143441\<close> and without a warning.
\<close>

theorem C7_missing_storefront_id_returns_None_string:
  "get_storefront_for_region repr
     (Decoded (JObj [(''data'', JObj [(''US'', JObj [(''name'', JStr ''United States'')])])]))
     ''us''
     = ([], Some ''None'')
   \<and> init_storefront repr
       (Decoded (JObj [(''data'', JObj [(''US'', JObj [(''name'', JStr ''United States'')])])]))
       None (Some ''us'')
     = ([], ''None'')"
  by (simp add: get_storefront_for_region_def init_storefront_def opt_truthy_def
      dict_get_def py_upper_us)

end
